theory Spec2Isabelle
  imports Complex_Main "HOL-Library.Word" "HOL-Library.Monad_Syntax"
begin

section \<open>The weather station sketch (src/src/main2.cpp)\<close>

text \<open>
  The sketch is one global log (two arrays and a count), a handful of printing routines,
  \<open>blinkLed\<close>, \<open>setup\<close> and \<open>loop\<close>. Each routine is a function from the state of
  the board to the state after it. The state holds the three globals, the millisecond
  counter behind \<open>millis()\<close> and a trace: the calls to the hardware and to the sensor
  library, the statement that resets the log and every call of \<open>add_log\<close>, in the order
  in which they are executed.

  An array access outside the bounds of the array is undefined behaviour in C++; the
  model returns \<open>None\<close> there, so that a routine proved to return \<open>Some\<close> made no
  such access.
\<close>

subsection \<open>Values\<close>

text \<open>
  \<open>unsigned long\<close> is 32 bits wide on the board (arithmetic wraps); \<open>int\<close> is modelled
  by the integers: the only \<open>int\<close> arithmetic of the sketch is \<open>i + 1\<close>, \<open>i - 1\<close> and
  \<open>log_count + 1\<close> on values below the loop bounds.

  A \<open>float\<close> is either NaN or a number. The numbers are idealised to the reals: the
  rounding of the 32-bit format, its infinities and its overflow are not modelled, and
  what \<open>Serial.print(x, digits)\<close> writes for a float is a parameter. A value computed
  in the model is therefore the code's value up to the rounding error of the format, and
  only where the real operations are defined (no zero denominator) and stay in its range.

  A \<open>String\<close> is the list of its characters.
\<close>

type_synonym ulong = "32 word"

datatype float = NaN | Num real

fun isnan :: "float \<Rightarrow> bool" where
  "isnan NaN = True"
| "isnan (Num x) = False"

definition DHTPIN :: int where "DHTPIN = 2"
definition LED_PIN :: int where "LED_PIN = 13"
definition LOG_SIZE :: int where "LOG_SIZE = 6"

definition HIGH :: bool where "HIGH = True"
definition LOW :: bool where "LOW = False"

subsection \<open>The board\<close>

datatype event =
    SerialBegin nat
  | DhtBegin
  | PinMode int
  | ReadTemperature
  | ReadHumidity
  | ComputeHeatIndex
  | ClearLog
  | AddLog string int
  | Print string
  | Println string
  | DigitalWrite int bool
  | Delay ulong

text \<open>
  \<open>AddLog msg k\<close> is a call \<open>add_log(msg)\<close> entered with \<open>log_count = k\<close>;
  \<open>ClearLog\<close> is the statement \<open>log_count = 0\<close>. \<open>Print\<close> and \<open>Println\<close> are
  \<open>Serial.print\<close> and \<open>Serial.println\<close> with the text written.
\<close>

record station =
  log_history :: "string list"
  log_times :: "ulong list"
  log_count :: int
  clock :: ulong
  trace :: "event list"

text \<open>The answers of the sensor library and of the core's float printer in one cycle.\<close>

record sensor =
  readTemperature :: float
  readHumidity :: float
  computeHeatIndex :: "float \<Rightarrow> float \<Rightarrow> float"
  printFloat :: "float \<Rightarrow> nat \<Rightarrow> string"

definition emit :: "event \<Rightarrow> station \<Rightarrow> station option" where
  "emit e s = Some (s\<lparr>trace := trace s @ [e]\<rparr>)"

definition millis :: "station \<Rightarrow> ulong" where
  "millis s = clock s"

text \<open>
  \<open>delay(ms)\<close>: the only operation of the model during which time passes. The clock
  stands still during a read of the sensor and during output.
\<close>

definition delay :: "ulong \<Rightarrow> station \<Rightarrow> station option" where
  "delay ms s = emit (Delay ms) (s\<lparr>clock := clock s + ms\<rparr>)"

definition digitalWrite :: "int \<Rightarrow> bool \<Rightarrow> station \<Rightarrow> station option" where
  "digitalWrite pin level s = emit (DigitalWrite pin level) s"

definition print :: "string \<Rightarrow> station \<Rightarrow> station option" where
  "print txt s = emit (Print txt) s"

definition println :: "string \<Rightarrow> station \<Rightarrow> station option" where
  "println txt s = emit (Println txt) s"

subsection \<open>Arrays and loops\<close>

definition load :: "int \<Rightarrow> 'a list \<Rightarrow> 'a option" where
  "load i xs = (if 0 \<le> i \<and> i < int (length xs) then Some (xs ! nat i) else None)"

definition store :: "int \<Rightarrow> 'a \<Rightarrow> 'a list \<Rightarrow> 'a list option" where
  "store i v xs = (if 0 \<le> i \<and> i < int (length xs) then Some (xs[nat i := v]) else None)"

text \<open>
  \<open>for (int i = lo; i < hi; ++i) body\<close>, for a body that assigns neither to \<open>i\<close> nor
  to the bound, which is the case of every loop of the sketch.
\<close>

function for_loop :: "int \<Rightarrow> int \<Rightarrow> (int \<Rightarrow> 's \<Rightarrow> 's option) \<Rightarrow> 's \<Rightarrow> 's option" where
  "for_loop i hi body s =
     (if i < hi
      then (case body i s of None \<Rightarrow> None | Some s' \<Rightarrow> for_loop (i + 1) hi body s')
      else Some s)"
  by pat_completeness auto
termination
  by (relation "measure (\<lambda>(i, hi, body, s). nat (hi - i))") auto

declare for_loop.simps [simp del]

subsection \<open>The rolling log\<close>

definition add_log :: "string \<Rightarrow> station \<Rightarrow> station option" where
  "add_log msg s0 = do {
     s \<leftarrow> emit (AddLog msg (log_count s0)) s0;
     if log_count s < LOG_SIZE then do {
       h \<leftarrow> store (log_count s) msg (log_history s);
       t \<leftarrow> store (log_count s) (millis s) (log_times s);
       Some (s\<lparr>log_history := h, log_times := t, log_count := log_count s + 1\<rparr>)
     } else do {
       s \<leftarrow> for_loop 1 LOG_SIZE (\<lambda>i s. do {
              x \<leftarrow> load i (log_history s);
              h \<leftarrow> store (i - 1) x (log_history s);
              y \<leftarrow> load i (log_times s);
              t \<leftarrow> store (i - 1) y (log_times s);
              Some (s\<lparr>log_history := h, log_times := t\<rparr>)
            }) s;
       h \<leftarrow> store (LOG_SIZE - 1) msg (log_history s);
       t \<leftarrow> store (LOG_SIZE - 1) (millis s) (log_times s);
       Some (s\<lparr>log_history := h, log_times := t\<rparr>)
     }
   }"

text \<open>The statement \<open>log_count = 0\<close> at the start of \<open>loop\<close>.\<close>

definition clear_log :: "station \<Rightarrow> station option" where
  "clear_log s = emit ClearLog (s\<lparr>log_count := 0\<rparr>)"


subsection \<open>Formatting\<close>

text \<open>
  \<open>snprintf(buf, n, ...)\<close> keeps the first \<open>n - 1\<close> characters of the formatted text.
  \<open>%02lu\<close> writes an \<open>unsigned long\<close> in decimal, padded with zeros to two characters.
  \<open>%s\<close> writes the characters of \<open>c_str()\<close>; a message is taken to hold no NUL
  character, as the string literals passed to \<open>add_log\<close> do.
\<close>

definition snprintf :: "nat \<Rightarrow> string \<Rightarrow> string" where
  "snprintf n txt = take (n - 1) txt"

definition digit :: "nat \<Rightarrow> char" where
  "digit d = ''0123456789'' ! d"

function decimal :: "nat \<Rightarrow> string" where
  "decimal n = (if n < 10 then [digit n] else decimal (n div 10) @ [digit (n mod 10)])"
  by pat_completeness auto
termination
  by (relation "measure (\<lambda>n. n)") auto

declare decimal.simps [simp del]

definition fmt02lu :: "ulong \<Rightarrow> string" where
  "fmt02lu w = (let d = decimal (unat w) in replicate (2 - length d) (CHR ''0'') @ d)"

subsection \<open>Printing\<close>

definition print_border :: "station \<Rightarrow> station option" where
  "print_border s = println ''+----------------------------------------------------+'' s"

definition print_footer :: "station \<Rightarrow> station option" where
  "print_footer s = println ''+----------------------------------------------------+'' s"

definition print_instructions :: "station \<Rightarrow> station option" where
  "print_instructions s = do {
     s \<leftarrow> println ''+----------------------------------------------------+'' s;
     s \<leftarrow> println ''| HexKernel | GitHub Repository                      |'' s;
     s \<leftarrow> println ''| github.com/HexKernel/Arduino-DHT11-Weather-Station |'' s;
     println ''+----------------------------------------------------+'' s
   }"

definition WAIT_MSG :: string where
  "WAIT_MSG = ''=== WAIT FOR 10 SECONDS FOR SCREEN TO REFRESH ===''"

definition BLANK_LINE :: string where
  "BLANK_LINE = ''                                                     ''"

text \<open>The body of the first loop of \<open>print_log_section\<close>, for the entry at index \<open>i\<close>.\<close>

definition print_log_entry :: "int \<Rightarrow> station \<Rightarrow> station option" where
  "print_log_entry i s = do {
     msg \<leftarrow> load i (log_history s);
     if msg = WAIT_MSG then do {
       s \<leftarrow> print ''  '' s;
       println msg s
     } else do {
       t \<leftarrow> load i (log_times s);
       let sec = t div 1000;
       let buf = snprintf 64 (''['' @ fmt02lu (sec div 3600) @ '':'' @ fmt02lu ((sec div 60) mod 60)
                   @ '':'' @ fmt02lu (sec mod 60) @ ''] '' @ msg);
       s \<leftarrow> print ''  '' s;
       println buf s
     }
   }"

definition print_log_section :: "station \<Rightarrow> station option" where
  "print_log_section s = do {
     s \<leftarrow> println ''Log & Status:                                    '' s;
     s \<leftarrow> for_loop 0 (log_count s) print_log_entry s;
     s \<leftarrow> for_loop (log_count s) LOG_SIZE (\<lambda>i s. println BLANK_LINE s) s;
     println BLANK_LINE s
   }"

subsection \<open>The LED\<close>

text \<open>
  \<open>blinkLed(times, delayMs)\<close>; the parameter \<open>times\<close> is \<open>count\<close> here. \<open>delayMs\<close> is
  an \<open>int\<close>, converted to \<open>unsigned long\<close> by the call of \<open>delay\<close>.
\<close>

definition blinkLed :: "int \<Rightarrow> int \<Rightarrow> station \<Rightarrow> station option" where
  "blinkLed count delayMs s =
     for_loop 0 count (\<lambda>i s. do {
       s \<leftarrow> digitalWrite LED_PIN HIGH s;
       s \<leftarrow> delay (word_of_int delayMs) s;
       s \<leftarrow> digitalWrite LED_PIN LOW s;
       delay (word_of_int delayMs) s
     }) s"

subsection \<open>setup and loop\<close>

text \<open>
  The board at reset: the globals as their initialisers leave them. The routine \<open>setup\<close>
  of the sketch is \<open>setup_board\<close> here.
\<close>

definition boot :: station where
  "boot = \<lparr>log_history = replicate (nat LOG_SIZE) [], log_times = replicate (nat LOG_SIZE) 0,
            log_count = 0, clock = 0, trace = []\<rparr>"

definition setup_board :: "station \<Rightarrow> station option" where
  "setup_board s = do {
     s \<leftarrow> emit (SerialBegin 9600) s;
     s \<leftarrow> emit DhtBegin s;
     s \<leftarrow> emit (PinMode LED_PIN) s;
     s \<leftarrow> delay 2000 s;
     println ''Temp,Humidity,HeatIdx,DewPt,AbsHum,SpecHum,MixR,VapPres,SatVapPres,WetBulb,Humidex,Enthalpy'' s
   }"

text \<open>
  The branch of \<open>loop\<close> taken when \<open>isnan(temp) || isnan(hum)\<close>, up to its \<open>return\<close>.
\<close>

definition loop_invalid :: "station \<Rightarrow> station option" where
  "loop_invalid s = do {
     s \<leftarrow> add_log ''Sensor error: nan values.'' s;
     s \<leftarrow> add_log ''=== WAIT FOR 10 SECONDS FOR SCREEN TO REFRESH ==='' s;
     s \<leftarrow> print_log_section s;
     s \<leftarrow> print_instructions s;
     s \<leftarrow> for_loop 0 8 (\<lambda>i s. do {
            s \<leftarrow> blinkLed 1 625 s;
            delay 625 s
          }) s;
     delay 5000 s
   }"

text \<open>
  The ten numbers that \<open>loop\<close> computes from a reading, in its local variables of the
  same names. \<open>dht.computeHeatIndex\<close> is the sensor library's; \<open>exp\<close>, \<open>atan\<close> and
  \<open>sqrt\<close> are the real functions. As in C, an operand that is NaN makes the result
  NaN, and so does \<open>pow(hum, 1.5)\<close> for a negative \<open>hum\<close>. Where a denominator is
  zero (\<open>temp\<close> at -243.12 or -273.15, \<open>hum\<close> at 100000) the code's result is an
  infinity or NaN, which the model does not have: the fields are meant away from there.
\<close>

record metrics =
  heatIndex :: float
  dewPoint :: float
  absHumidity :: float
  specificHumidity :: float
  mixingRatio :: float
  vaporPressure :: float
  satVaporPressure :: float
  wetBulb :: float
  humidex :: float
  enthalpy :: float

definition compute_metrics :: "sensor \<Rightarrow> float \<Rightarrow> float \<Rightarrow> metrics" where
  "compute_metrics dht temp hum =
     (case (temp, hum) of
        (Num T, Num H) \<Rightarrow>
          (let vp = H / 100.0 * 6.112 * exp ((17.62 * T) / (243.12 + T))
           in \<lparr>heatIndex = computeHeatIndex dht temp hum,
               dewPoint = Num (T - ((100 - H) / 5.0)),
               absHumidity = Num (216.7 * ((H / 100.0) * 6.112 * exp ((17.62 * T) / (243.12 + T)) / (273.15 + T))),
               specificHumidity = Num ((0.622 * (H / 100.0)) / (1 + (0.622 * (H / 100.0)))),
               mixingRatio = Num ((622 * (H / 100.0)) / (1000 - (H / 100.0))),
               vaporPressure = Num vp,
               satVaporPressure = Num (6.112 * exp ((17.62 * T) / (243.12 + T))),
               wetBulb = (if H < 0 then NaN
                          else Num (T * arctan (0.151977 * sqrt (H + 8.313659)) + arctan (T + H)
                            - arctan (H - 1.676331) + 0.00391838 * (H powr 1.5) * arctan (0.023101 * H)
                            - 4.686035)),
               humidex = Num (T + 0.5555 * (vp - 10.0)),
               enthalpy = Num (1.006 * T + (2501 + 1.86 * T) * H / 100.0)\<rparr>)
      | _ \<Rightarrow>
          \<lparr>heatIndex = computeHeatIndex dht temp hum,
           dewPoint = NaN, absHumidity = NaN, specificHumidity = NaN, mixingRatio = NaN,
           vaporPressure = NaN, satVaporPressure = NaN, wetBulb = NaN, humidex = NaN,
           enthalpy = NaN\<rparr>)"

text \<open>
  The panel of \<open>loop\<close>, from the thirty empty lines to the closing border.
\<close>

definition print_panel :: "sensor \<Rightarrow> float \<Rightarrow> float \<Rightarrow> metrics \<Rightarrow> station \<Rightarrow> station option" where
  "print_panel dht temp hum m s = do {
     s \<leftarrow> for_loop 0 30 (\<lambda>i s. println [] s) s;
     let uptime = millis s div 1000;
     let uptime_str = snprintf 16 (fmt02lu (uptime div 3600) @ '':'' @ fmt02lu ((uptime div 60) mod 60)
                        @ '':'' @ fmt02lu (uptime mod 60));
     s \<leftarrow> print_border s;
     s \<leftarrow> println ''|         Arduino Weather Station Live Feed          |'' s;
     s \<leftarrow> print ''|         Uptime: '' s;
     s \<leftarrow> print uptime_str s;
     s \<leftarrow> println ''                           |'' s;
     s \<leftarrow> print_border s;
     s \<leftarrow> print ''  Temp (C):           '' s;
     s \<leftarrow> print (printFloat dht temp 2) s;
     s \<leftarrow> println ''  (approx +/-2.00)'' s;
     s \<leftarrow> print ''  Humidity (%):       '' s;
     s \<leftarrow> print (printFloat dht hum 2) s;
     s \<leftarrow> println ''  (approx +/-5.00)'' s;
     s \<leftarrow> print ''  Heat Index (C):     '' s;
     s \<leftarrow> print (printFloat dht (heatIndex m) 2) s;
     s \<leftarrow> println [] s;
     s \<leftarrow> print ''  Humidex:            '' s;
     s \<leftarrow> print (printFloat dht (humidex m) 2) s;
     s \<leftarrow> println [] s;
     s \<leftarrow> print ''  Dew Point (C):      '' s;
     s \<leftarrow> print (printFloat dht (dewPoint m) 2) s;
     s \<leftarrow> println [] s;
     s \<leftarrow> print ''  Wet Bulb Temp (C):  '' s;
     s \<leftarrow> print (printFloat dht (wetBulb m) 2) s;
     s \<leftarrow> println [] s;
     s \<leftarrow> print ''  Enthalpy (kJ/kg):   '' s;
     s \<leftarrow> print (printFloat dht (enthalpy m) 2) s;
     s \<leftarrow> println [] s;
     s \<leftarrow> println [] s;
     s \<leftarrow> print ''  Abs Humidity (g/m3):'' s;
     s \<leftarrow> print (printFloat dht (absHumidity m) 2) s;
     s \<leftarrow> println [] s;
     s \<leftarrow> print ''  Specific Humidity:  '' s;
     s \<leftarrow> print (printFloat dht (specificHumidity m) 5) s;
     s \<leftarrow> println [] s;
     s \<leftarrow> print ''  Mixing Ratio (g/kg):'' s;
     s \<leftarrow> print (printFloat dht (mixingRatio m) 2) s;
     s \<leftarrow> println [] s;
     s \<leftarrow> println [] s;
     s \<leftarrow> print ''  Vapor Pressure (hPa):'' s;
     s \<leftarrow> print (printFloat dht (vaporPressure m) 2) s;
     s \<leftarrow> println [] s;
     s \<leftarrow> print ''  Sat Vapor Press.:   '' s;
     s \<leftarrow> print (printFloat dht (satVaporPressure m) 2) s;
     s \<leftarrow> println [] s;
     print_border s
   }"

text \<open>
  The branch of \<open>loop\<close> taken otherwise. The event \<open>ComputeHeatIndex\<close> stands where the
  ten numbers are computed.
\<close>

definition loop_valid :: "sensor \<Rightarrow> float \<Rightarrow> float \<Rightarrow> station \<Rightarrow> station option" where
  "loop_valid dht temp hum s = do {
     s \<leftarrow> add_log ''Calculations for metrics done.'' s;
     s \<leftarrow> emit ComputeHeatIndex s;
     let m = compute_metrics dht temp hum;
     s \<leftarrow> add_log ''Parsing data to serial output.'' s;
     s \<leftarrow> blinkLed 3 70 s;
     s \<leftarrow> print_panel dht temp hum m s;
     s \<leftarrow> add_log ''Successful display to serial monitor.'' s;
     s \<leftarrow> add_log ''=== WAIT FOR 10 SECONDS FOR SCREEN TO REFRESH ==='' s;
     s \<leftarrow> print_log_section s;
     s \<leftarrow> print_instructions s;
     for_loop 0 8 (\<lambda>i s. do {
       s \<leftarrow> blinkLed 1 625 s;
       delay 625 s
     }) s
   }"

definition loop :: "sensor \<Rightarrow> station \<Rightarrow> station option" where
  "loop dht s = do {
     s \<leftarrow> emit ReadTemperature s;
     let temp = readTemperature dht;
     s \<leftarrow> emit ReadHumidity s;
     let hum = readHumidity dht;
     s \<leftarrow> clear_log s;
     s \<leftarrow> add_log ''Measurement received from DHT11.'' s;
     if isnan temp \<or> isnan hum then loop_invalid s else loop_valid dht temp hum s
   }"

text \<open>The sketch: \<open>setup_board\<close> once, then \<open>loop\<close> again and again, one sensor answer per cycle.\<close>

fun cycles :: "sensor list \<Rightarrow> station \<Rightarrow> station option" where
  "cycles [] s = Some s"
| "cycles (dht # rest) s = (case loop dht s of None \<Rightarrow> None | Some s' \<Rightarrow> cycles rest s')"

definition sketch :: "sensor list \<Rightarrow> station option" where
  "sketch answers = (case setup_board boot of None \<Rightarrow> None | Some s \<Rightarrow> cycles answers s)"

section \<open>Vocabulary of the properties\<close>

subsection \<open>States and traces\<close>

text \<open>The two arrays have \<open>LOG_SIZE\<close> elements, as declared.\<close>

definition arrays_ok :: "station \<Rightarrow> bool" where
  "arrays_ok s \<longleftrightarrow> int (length (log_history s)) = LOG_SIZE \<and> int (length (log_times s)) = LOG_SIZE"

definition emits :: "event list \<Rightarrow> station \<Rightarrow> station" where
  "emits es s = s\<lparr>trace := trace s @ es\<rparr>"

text \<open>The events recorded between a state and a later one.\<close>

definition since :: "station \<Rightarrow> station \<Rightarrow> event list" where
  "since s s' = drop (length (trace s)) (trace s')"

text \<open>The events of one run of \<open>loop\<close>.\<close>

definition cycle_events :: "sensor \<Rightarrow> station \<Rightarrow> event list" where
  "cycle_events dht s = (case loop dht s of None \<Rightarrow> [] | Some s' \<Rightarrow> since s s')"

text \<open>The state in which \<open>setup_board\<close> leaves the board (lemma \<open>setup_board_boot\<close>).\<close>

definition started :: station where
  "started = boot\<lparr>clock := 2000,
     trace := [SerialBegin 9600, DhtBegin, PinMode LED_PIN, Delay 2000,
       Println ''Temp,Humidity,HeatIdx,DewPt,AbsHum,SpecHum,MixR,VapPres,SatVapPres,WetBulb,Humidex,Enthalpy'']\<rparr>"

text \<open>
  Two sensors for the examples: one whose reads fail, one that answers 27 degrees and
  43 percent. Their heat index and their float printer are stand-ins.
\<close>

definition failed_sensor :: sensor where
  "failed_sensor = \<lparr>readTemperature = NaN, readHumidity = NaN,
     computeHeatIndex = (\<lambda>t h. NaN), printFloat = (\<lambda>x digits. ''nan'')\<rparr>"

definition sample_sensor :: sensor where
  "sample_sensor = \<lparr>readTemperature = Num 27, readHumidity = Num 43,
     computeHeatIndex = (\<lambda>t h. Num 27.02), printFloat = (\<lambda>x digits. ''#.##'')\<rparr>"

subsection \<open>The serial output\<close>

fun is_serial :: "event \<Rightarrow> bool" where
  "is_serial (Print txt) = True"
| "is_serial (Println txt) = True"
| "is_serial e = False"

text \<open>
  The lines written by a trace: \<open>Print\<close> adds to the current line, \<open>Println\<close> adds
  and ends it. Text after the last \<open>Println\<close> is not a line yet. A line is what one
  \<open>Serial.println\<close> ends: the texts written are taken to hold no line break of their own.
\<close>

fun serial_lines_from :: "string \<Rightarrow> event list \<Rightarrow> string list" where
  "serial_lines_from cur [] = []"
| "serial_lines_from cur (Print txt # es) = serial_lines_from (cur @ txt) es"
| "serial_lines_from cur (Println txt # es) = (cur @ txt) # serial_lines_from [] es"
| "serial_lines_from cur (e # es) = serial_lines_from cur es"

definition serial_lines :: "event list \<Rightarrow> string list" where
  "serial_lines es = serial_lines_from [] es"

text \<open>
  What \<open>print_log_entry\<close> hands to \<open>Serial.println\<close> for a message and its timestamp
  (lemma \<open>print_log_entry_emits\<close>).
\<close>

definition entry_text :: "string \<Rightarrow> ulong \<Rightarrow> string" where
  "entry_text msg t =
     (if msg = WAIT_MSG then msg
      else snprintf 64 (''['' @ fmt02lu (t div 1000 div 3600) @ '':'' @ fmt02lu ((t div 1000 div 60) mod 60)
             @ '':'' @ fmt02lu (t div 1000 mod 60) @ ''] '' @ msg))"

definition entry_events :: "string \<times> ulong \<Rightarrow> event list" where
  "entry_events e = [Print ''  '', Println (entry_text (fst e) (snd e))]"

text \<open>
  The format \<open>HH:MM:SS\<close> read literally: two decimal digits for each of the hours, the
  minutes and the seconds of a time given in milliseconds.
\<close>

definition two_digits :: "nat \<Rightarrow> string" where
  "two_digits n = [digit (n div 10), digit (n mod 10)]"

definition hhmmss :: "nat \<Rightarrow> string" where
  "hhmmss ms = (let sec = ms div 1000 in
     two_digits (sec div 3600) @ '':'' @ two_digits (sec div 60 mod 60) @ '':'' @ two_digits (sec mod 60))"

subsection \<open>Waiting\<close>

fun delay_ms :: "event \<Rightarrow> nat" where
  "delay_ms (Delay ms) = unat ms"
| "delay_ms e = 0"

definition total_delay :: "event list \<Rightarrow> nat" where
  "total_delay es = sum_list (map delay_ms es)"

text \<open>The events that follow the last write to the serial line.\<close>

definition after_render :: "event list \<Rightarrow> event list" where
  "after_render es = rev (takeWhile (\<lambda>e. \<not> is_serial e) (rev es))"

subsection \<open>The log\<close>

text \<open>A call of \<open>add_log\<close> that takes the \<open>else\<close> branch, where the oldest entry is dropped.\<close>

fun evicting :: "event \<Rightarrow> bool" where
  "evicting (AddLog msg k) = (\<not> k < LOG_SIZE)"
| "evicting e = False"

text \<open>A caller that appends the messages of a list, waiting before each of them.\<close>

fun log_all :: "(ulong \<times> string) list \<Rightarrow> station \<Rightarrow> station option" where
  "log_all [] s = Some s"
| "log_all ((wait, msg) # rest) s = do { s \<leftarrow> delay wait s; s \<leftarrow> add_log msg s; log_all rest s }"

text \<open>
  The log section printed after the given appends to a cleared log, from the state in
  which \<open>setup_board\<close> leaves the board.
\<close>

definition log_section_of :: "(ulong \<times> string) list \<Rightarrow> string list" where
  "log_section_of entries =
     (case clear_log started of None \<Rightarrow> [] | Some s0 \<Rightarrow>
        (case log_all entries s0 of None \<Rightarrow> [] | Some s \<Rightarrow>
           (case print_log_section s of None \<Rightarrow> [] | Some s' \<Rightarrow> serial_lines (since s s'))))"

subsection \<open>Reference values\<close>

text \<open>
  A computed value agrees with a reference value to two decimal places: it is a number
  less than half a hundredth away from it.
\<close>

fun two_places :: "float \<Rightarrow> real \<Rightarrow> bool" where
  "two_places (Num v) r = (\<bar>v - r\<bar> < 0.005)"
| "two_places NaN r = False"

subsection \<open>The traces of one cycle\<close>

text \<open>
  The events of a cycle in each branch of \<open>loop\<close>, entered at time \<open>now\<close>
  (lemmas \<open>loop_invalid_run\<close> and \<open>loop_valid_run\<close>). The panel is the trace of
  \<open>print_panel\<close> itself.
\<close>

definition blink_wait :: "event list" where
  "blink_wait = concat (replicate 8
     [DigitalWrite LED_PIN HIGH, Delay 625, DigitalWrite LED_PIN LOW, Delay 625, Delay 625])"

definition invalid_events :: "ulong \<Rightarrow> event list" where
  "invalid_events now =
     [ReadTemperature, ReadHumidity, ClearLog,
      AddLog ''Measurement received from DHT11.'' 0,
      AddLog ''Sensor error: nan values.'' 1,
      AddLog WAIT_MSG 2,
      Println ''Log & Status:                                    '',
      Print ''  '', Println (entry_text ''Measurement received from DHT11.'' now),
      Print ''  '', Println (entry_text ''Sensor error: nan values.'' now),
      Print ''  '', Println WAIT_MSG,
      Println BLANK_LINE, Println BLANK_LINE, Println BLANK_LINE, Println BLANK_LINE,
      Println ''+----------------------------------------------------+'',
      Println ''| HexKernel | GitHub Repository                      |'',
      Println ''| github.com/HexKernel/Arduino-DHT11-Weather-Station |'',
      Println ''+----------------------------------------------------+'']
     @ blink_wait @ [Delay 5000]"

definition panel_events :: "sensor \<Rightarrow> float \<Rightarrow> float \<Rightarrow> metrics \<Rightarrow> ulong \<Rightarrow> event list" where
  "panel_events dht temp hum m now =
     (case print_panel dht temp hum m (boot\<lparr>clock := now\<rparr>) of
        None \<Rightarrow> [] | Some s' \<Rightarrow> trace s')"

definition valid_events :: "sensor \<Rightarrow> ulong \<Rightarrow> event list" where
  "valid_events dht now =
     [ReadTemperature, ReadHumidity, ClearLog,
      AddLog ''Measurement received from DHT11.'' 0,
      AddLog ''Calculations for metrics done.'' 1,
      ComputeHeatIndex,
      AddLog ''Parsing data to serial output.'' 2]
     @ concat (replicate 3 [DigitalWrite LED_PIN HIGH, Delay 70, DigitalWrite LED_PIN LOW, Delay 70])
     @ panel_events dht (readTemperature dht) (readHumidity dht)
         (compute_metrics dht (readTemperature dht) (readHumidity dht)) (now + 420)
     @ [AddLog ''Successful display to serial monitor.'' 3,
        AddLog WAIT_MSG 4,
        Println ''Log & Status:                                    '',
        Print ''  '', Println (entry_text ''Measurement received from DHT11.'' now),
        Print ''  '', Println (entry_text ''Calculations for metrics done.'' now),
        Print ''  '', Println (entry_text ''Parsing data to serial output.'' now),
        Print ''  '', Println (entry_text ''Successful display to serial monitor.'' (now + 420)),
        Print ''  '', Println WAIT_MSG,
        Println BLANK_LINE, Println BLANK_LINE,
        Println ''+----------------------------------------------------+'',
        Println ''| HexKernel | GitHub Repository                      |'',
        Println ''| github.com/HexKernel/Arduino-DHT11-Weather-Station |'',
        Println ''+----------------------------------------------------+'']
     @ blink_wait"

section \<open>Lemmas\<close>

subsection \<open>Loops and the two branches of add_log\<close>

lemma for_loop_step:
  "i < hi \<Longrightarrow> for_loop i hi body s = (case body i s of None \<Rightarrow> None | Some s' \<Rightarrow> for_loop (i + 1) hi body s')"
  by (simp add: for_loop.simps [of i])

lemma for_loop_done: "\<not> i < hi \<Longrightarrow> for_loop i hi body s = Some s"
  by (simp add: for_loop.simps [of i])

lemma list6: "length xs = 6 \<Longrightarrow> \<exists>a b c d e f. xs = [a, b, c, d, e, f]"
  by (auto simp: numeral_eq_Suc length_Suc_conv)

lemma add_log_append:
  assumes "0 \<le> log_count s" "log_count s < LOG_SIZE" "arrays_ok s"
  shows "add_log msg s = Some (s\<lparr>log_history := (log_history s)[nat (log_count s) := msg],
           log_times := (log_times s)[nat (log_count s) := clock s],
           log_count := log_count s + 1,
           trace := trace s @ [AddLog msg (log_count s)]\<rparr>)"
  using assms by (simp add: add_log_def emit_def store_def millis_def arrays_ok_def)

lemma add_log_evict:
  assumes "\<not> log_count s < LOG_SIZE" "arrays_ok s"
  shows "add_log msg s = Some (s\<lparr>log_history := tl (log_history s) @ [msg],
           log_times := tl (log_times s) @ [clock s],
           trace := trace s @ [AddLog msg (log_count s)]\<rparr>)"
proof -
  from assms(2) obtain a b c d e f where h: "log_history s = [a, b, c, d, e, f]"
    using list6 [of "log_history s"] by (auto simp: arrays_ok_def LOG_SIZE_def)
  from assms(2) obtain a' b' c' d' e' f' where t: "log_times s = [a', b', c', d', e', f']"
    using list6 [of "log_times s"] by (auto simp: arrays_ok_def LOG_SIZE_def)
  show ?thesis
    using assms(1) h t
    by (simp add: add_log_def emit_def store_def load_def millis_def LOG_SIZE_def
        for_loop_step for_loop_done)
qed

subsection \<open>Routines that only write\<close>

lemma emits_emits: "emits es (emits ds s) = emits (ds @ es) s"
  by (simp add: emits_def)

lemma emits_fields [simp]:
  "log_history (emits es s) = log_history s"
  "log_times (emits es s) = log_times s"
  "log_count (emits es s) = log_count s"
  "clock (emits es s) = clock s"
  "trace (emits es s) = trace s @ es"
  by (simp_all add: emits_def)

lemma for_loop_emits:
  assumes body: "\<And>i s'. lo \<le> i \<Longrightarrow> i < hi \<Longrightarrow> P s' \<Longrightarrow> body i s' = Some (emits (g i) s')"
    and keep: "\<And>s' es. P s' \<Longrightarrow> P (emits es s')"
    and "P s"
  shows "for_loop lo hi body s = Some (emits (concat (map g [lo..hi - 1])) s)"
  using assms
proof (induction lo hi body s rule: for_loop.induct)
  case (1 i hi body s)
  show ?case
  proof (cases "i < hi")
    case False
    then show ?thesis by (simp add: for_loop_done emits_def)
  next
    case True
    have b: "body i s = Some (emits (g i) s)"
      using "1.prems"(1) [of i s] True "1.prems"(3) by simp
    have "for_loop (i + 1) hi body (emits (g i) s) =
          Some (emits (concat (map g [i + 1..hi - 1])) (emits (g i) s))"
      using "1.IH" [OF True b] "1.prems" by simp
    moreover have "[i..hi - 1] = i # [i + 1..hi - 1]"
      using True by (simp add: upto_rec1)
    ultimately show ?thesis
      using True b by (simp add: for_loop_step emits_emits)
  qed
qed

lemma map_nth_upto:
  "n \<le> length xs \<Longrightarrow> map (\<lambda>i. f (xs ! nat i)) [0..int n - 1] = map f (take n xs)"
proof (induction n)
  case 0
  then show ?case by simp
next
  case (Suc n)
  then have "[0..int (Suc n) - 1] = [0..int n - 1] @ [int n]"
    using upto_rec2 [of 0 "int n"] by simp
  with Suc show ?case by (simp add: take_Suc_conv_app_nth)
qed

lemma emit_emits: "emit e s = Some (emits [e] s)"
  by (simp add: emit_def emits_def)

subsection \<open>The log section\<close>

lemma print_log_entry_emits:
  assumes "0 \<le> i" "i < int (length (log_history s))" "i < int (length (log_times s))"
  shows "print_log_entry i s =
         Some (emits (entry_events (log_history s ! nat i, log_times s ! nat i)) s)"
  using assms
  by (simp add: print_log_entry_def load_def print_def println_def emit_emits emits_emits
      entry_events_def entry_text_def Let_def)

lemma map_zip_nth_upto:
  assumes "n \<le> length xs" "n \<le> length ys"
  shows "map (\<lambda>i. f (xs ! nat i, ys ! nat i)) [0..int n - 1] = map f (take n (zip xs ys))"
proof -
  have "map (\<lambda>i. f (zip xs ys ! nat i)) [0..int n - 1] = map f (take n (zip xs ys))"
    using assms by (intro map_nth_upto) simp
  moreover have "map (\<lambda>i. f (zip xs ys ! nat i)) [0..int n - 1]
               = map (\<lambda>i. f (xs ! nat i, ys ! nat i)) [0..int n - 1]"
    using assms by (intro map_cong) auto
  ultimately show ?thesis by simp
qed

lemma print_log_section_emits:
  assumes "arrays_ok s" "0 \<le> log_count s" "log_count s \<le> LOG_SIZE"
  shows "print_log_section s =
         Some (emits (Println ''Log & Status:                                    ''
                 # concat (map entry_events (take (nat (log_count s)) (zip (log_history s) (log_times s))))
                 @ replicate (nat (LOG_SIZE - log_count s)) (Println BLANK_LINE)
                 @ [Println BLANK_LINE]) s)"
proof -
  let ?h = "log_history s" and ?t = "log_times s" and ?n = "log_count s"
  let ?s1 = "emits [Println ''Log & Status:                                    ''] s"
  let ?P = "\<lambda>s'::station. log_history s' = ?h \<and> log_times s' = ?t"
  have len: "int (length ?h) = LOG_SIZE" "int (length ?t) = LOG_SIZE"
    using assms(1) by (simp_all add: arrays_ok_def)
  have "for_loop 0 ?n print_log_entry ?s1 =
        Some (emits (concat (map (\<lambda>i. entry_events (?h ! nat i, ?t ! nat i)) [0..?n - 1])) ?s1)"
  proof (rule for_loop_emits [where P = ?P])
    fix i and s' :: station assume "0 \<le> i" "i < ?n" "?P s'"
    then show "print_log_entry i s' = Some (emits (entry_events (?h ! nat i, ?t ! nat i)) s')"
      using print_log_entry_emits [of i s'] len assms(3) by simp
  qed simp_all
  moreover have "map (\<lambda>i. entry_events (?h ! nat i, ?t ! nat i)) [0..?n - 1]
               = map entry_events (take (nat ?n) (zip ?h ?t))"
    using map_zip_nth_upto [of "nat ?n" ?h ?t entry_events] len assms(2,3) by simp
  ultimately have first: "for_loop 0 ?n print_log_entry ?s1 =
        Some (emits (concat (map entry_events (take (nat ?n) (zip ?h ?t)))) ?s1)"
    by simp
  let ?s2 = "emits (concat (map entry_events (take (nat ?n) (zip ?h ?t)))) ?s1"
  have "for_loop ?n LOG_SIZE (\<lambda>i s. println BLANK_LINE s) ?s2 =
        Some (emits (concat (map (\<lambda>i. [Println BLANK_LINE]) [?n..LOG_SIZE - 1])) ?s2)"
    by (rule for_loop_emits [where P = "\<lambda>s'::station. True"]) (simp_all add: println_def emit_emits)
  then have second: "for_loop ?n LOG_SIZE (\<lambda>i s. println BLANK_LINE s) ?s2 =
        Some (emits (replicate (nat (LOG_SIZE - ?n)) (Println BLANK_LINE)) ?s2)"
    using assms(3) by (simp add: map_replicate_const)
  let ?s3 = "emits (replicate (nat (LOG_SIZE - ?n)) (Println BLANK_LINE)) ?s2"
  have head: "println ''Log & Status:                                    '' s = Some ?s1"
    by (simp add: println_def emit_emits)
  have last: "println BLANK_LINE ?s3 = Some (emits [Println BLANK_LINE] ?s3)"
    by (simp add: println_def emit_emits)
  have "print_log_section s = Some (emits [Println BLANK_LINE] ?s3)"
    by (simp add: print_log_section_def head first second last)
  then show ?thesis
    by (simp add: emits_emits)
qed

lemma lines_entries:
  "serial_lines_from [] (concat (map entry_events es) @ rest)
   = map (\<lambda>e. ''  '' @ entry_text (fst e) (snd e)) es @ serial_lines_from [] rest"
  by (induction es) (simp_all add: entry_events_def)

lemma lines_blank:
  "serial_lines_from [] (replicate k (Println b) @ rest) = replicate k b @ serial_lines_from [] rest"
  by (induction k) simp_all

lemma since_emits [simp]: "since s (emits es s) = es"
  by (simp add: since_def)

lemma print_log_section_lines:
  assumes "arrays_ok s" "0 \<le> log_count s" "log_count s \<le> LOG_SIZE"
  shows "\<exists>s'. print_log_section s = Some s' \<and>
           serial_lines (since s s') =
             ''Log & Status:                                    ''
             # map (\<lambda>e. ''  '' @ entry_text (fst e) (snd e))
                 (take (nat (log_count s)) (zip (log_history s) (log_times s)))
             @ replicate (nat (LOG_SIZE - log_count s)) BLANK_LINE @ [BLANK_LINE]"
  using print_log_section_emits [OF assms]
  by (simp add: serial_lines_def lines_entries lines_blank)

subsection \<open>One cycle\<close>

lemma print_instructions_emits:
  "print_instructions s = Some (emits
     [Println ''+----------------------------------------------------+'',
      Println ''| HexKernel | GitHub Repository                      |'',
      Println ''| github.com/HexKernel/Arduino-DHT11-Weather-Station |'',
      Println ''+----------------------------------------------------+''] s)"
  by (simp add: print_instructions_def println_def emit_emits emits_emits)

lemma wait_loop:
  "for_loop 0 8 (\<lambda>i s. do { s \<leftarrow> blinkLed 1 625 s; delay 625 s }) s
   = Some (emits blink_wait (s\<lparr>clock := clock s + 15000\<rparr>))"
  by (simp add: for_loop_step for_loop_done blinkLed_def digitalWrite_def delay_def emit_def
      emits_def blink_wait_def numeral_eq_Suc)

lemma arrays_ok_lists:
  assumes "arrays_ok s"
  obtains a b c d e f a' b' c' d' e' f'
  where "log_history s = [a, b, c, d, e, f]" "log_times s = [a', b', c', d', e', f']"
proof -
  from assms obtain a b c d e f where h: "log_history s = [a, b, c, d, e, f]"
    using list6 [of "log_history s"] by (auto simp: arrays_ok_def LOG_SIZE_def)
  from assms obtain a' b' c' d' e' f' where t: "log_times s = [a', b', c', d', e', f']"
    using list6 [of "log_times s"] by (auto simp: arrays_ok_def LOG_SIZE_def)
  from h t that show thesis by blast
qed

lemma loop_invalid_run:
  assumes "arrays_ok s" "isnan (readTemperature dht) \<or> isnan (readHumidity dht)"
  shows "loop dht s = Some (s\<lparr>
           log_history := (log_history s)[0 := ''Measurement received from DHT11.'',
                                          1 := ''Sensor error: nan values.'', 2 := WAIT_MSG],
           log_times := (log_times s)[0 := clock s, 1 := clock s, 2 := clock s],
           log_count := 3,
           clock := clock s + 20000,
           trace := trace s @ invalid_events (clock s)\<rparr>)"
proof -
  from assms(1) obtain a b c d e f a' b' c' d' e' f'
    where h: "log_history s = [a, b, c, d, e, f]" and t: "log_times s = [a', b', c', d', e', f']"
    by (rule arrays_ok_lists)
  show ?thesis
    using assms(2) h t
    apply (simp add: loop_def emit_def clear_log_def add_log_def LOG_SIZE_def store_def millis_def
        loop_invalid_def WAIT_MSG_def [symmetric])
    apply (simp add: print_log_section_emits arrays_ok_def LOG_SIZE_def entry_events_def
        entry_text_def [of WAIT_MSG] print_instructions_emits wait_loop)
    apply (simp add: delay_def emit_def emits_def invalid_events_def eval_nat_numeral add.commute)
    done
qed

lemmas panel_unfold = print_panel_def Let_def for_loop_step for_loop_done println_def print_def
      emit_def print_border_def emits_def millis_def

lemma print_panel_emits:
  "print_panel dht temp hum m s
   = Some (emits (panel_events dht temp hum m (clock s)) s)"
  by (simp add: panel_events_def boot_def panel_unfold)

lemma panel_events_serial: "list_all is_serial (panel_events dht temp hum m now)"
  by (simp add: panel_events_def boot_def panel_unfold)

lemma panel_events_lines: "length (serial_lines (panel_events dht temp hum m now)) = 49"
  by (simp add: panel_events_def boot_def panel_unfold serial_lines_def)

lemma blink3:
  "blinkLed 3 70 s = Some (emits
     (concat (replicate 3 [DigitalWrite LED_PIN HIGH, Delay 70, DigitalWrite LED_PIN LOW, Delay 70]))
     (s\<lparr>clock := clock s + 420\<rparr>))"
  by (simp add: for_loop_step for_loop_done blinkLed_def digitalWrite_def delay_def emit_def
      emits_def eval_nat_numeral)

lemma loop_valid_run:
  assumes "arrays_ok s" "\<not> (isnan (readTemperature dht) \<or> isnan (readHumidity dht))"
  shows "loop dht s = Some (s\<lparr>
           log_history := (log_history s)[0 := ''Measurement received from DHT11.'',
                                          1 := ''Calculations for metrics done.'',
                                          2 := ''Parsing data to serial output.'',
                                          3 := ''Successful display to serial monitor.'',
                                          4 := WAIT_MSG],
           log_times := (log_times s)[0 := clock s, 1 := clock s, 2 := clock s,
                                      3 := clock s + 420, 4 := clock s + 420],
           log_count := 5,
           clock := clock s + 15420,
           trace := trace s @ valid_events dht (clock s)\<rparr>)"
proof -
  from assms(1) obtain a b c d e f a' b' c' d' e' f'
    where h: "log_history s = [a, b, c, d, e, f]" and t: "log_times s = [a', b', c', d', e', f']"
    by (rule arrays_ok_lists)
  show ?thesis
    using assms(2) h t
    apply (simp add: loop_def emit_def clear_log_def add_log_def LOG_SIZE_def store_def millis_def
        loop_valid_def WAIT_MSG_def [symmetric] blink3 print_panel_emits emits_def)
    apply (simp add: print_log_section_emits arrays_ok_def LOG_SIZE_def entry_events_def
        entry_text_def [of WAIT_MSG] print_instructions_emits wait_loop)
    apply (simp add: emits_def valid_events_def eval_nat_numeral add.commute Let_def)
    done
qed

lemma setup_board_boot: "setup_board boot = Some started"
  by (simp add: setup_board_def started_def boot_def emit_def delay_def println_def)

lemma arrays_ok_boot: "arrays_ok boot"
  by (simp add: arrays_ok_def boot_def LOG_SIZE_def)

lemma arrays_ok_started: "arrays_ok started"
  by (simp add: arrays_ok_def started_def boot_def LOG_SIZE_def)

lemma after_render_tail:
  assumes "is_serial e" "\<forall>x \<in> set ws. \<not> is_serial x"
  shows "after_render (es @ e # ws) = ws"
proof -
  have "takeWhile (\<lambda>e. \<not> is_serial e) (rev ws @ e # rev es) = rev ws"
    using assms by (simp add: takeWhile_tail)
  then show ?thesis by (simp add: after_render_def)
qed

lemma replicate_8: "replicate 8 x = [x, x, x, x, x, x, x, x]"
  by (simp add: eval_nat_numeral)

lemma blink_wait_quiet: "\<forall>x \<in> set blink_wait. \<not> is_serial x"
  by (simp add: blink_wait_def replicate_8)

lemma total_delay_blink_wait: "total_delay blink_wait = 15000"
  by (simp add: blink_wait_def total_delay_def replicate_8)

lemma after_render_invalid: "after_render (invalid_events now) = blink_wait @ [Delay 5000]"
proof -
  have "invalid_events now = (butlast (take 21 (invalid_events now)))
      @ Println ''+----------------------------------------------------+'' # (blink_wait @ [Delay 5000])"
    by (simp add: invalid_events_def)
  moreover have "\<forall>x \<in> set (blink_wait @ [Delay 5000]). \<not> is_serial x"
    using blink_wait_quiet by simp
  ultimately show ?thesis
    using after_render_tail [of "Println ''+----------------------------------------------------+''"
        "blink_wait @ [Delay 5000]" "butlast (take 21 (invalid_events now))"]
    by simp
qed

lemma after_render_valid: "after_render (valid_events dht now) = blink_wait"
proof -
  obtain pre where "valid_events dht now = pre
      @ Println ''+----------------------------------------------------+'' # blink_wait"
    by (simp add: valid_events_def)
  then show ?thesis
    using after_render_tail [of "Println ''+----------------------------------------------------+''"
        blink_wait pre] blink_wait_quiet
    by simp
qed

lemma cycle_events_invalid:
  assumes "arrays_ok s" "isnan (readTemperature dht) \<or> isnan (readHumidity dht)"
  shows "cycle_events dht s = invalid_events (clock s)"
  by (simp add: cycle_events_def loop_invalid_run [OF assms] since_def)

lemma cycle_events_valid:
  assumes "arrays_ok s" "\<not> (isnan (readTemperature dht) \<or> isnan (readHumidity dht))"
  shows "cycle_events dht s = valid_events dht (clock s)"
  by (simp add: cycle_events_def loop_valid_run [OF assms] since_def)

subsection \<open>Timestamps\<close>

lemma decimal_small: "n < 10 \<Longrightarrow> decimal n = [digit n]"
  by (simp add: decimal.simps [of n])

lemma decimal_large: "\<not> n < 10 \<Longrightarrow> decimal n = decimal (n div 10) @ [digit (n mod 10)]"
  by (simp add: decimal.simps [of n])

lemma fmt02lu_two_digits:
  assumes "unat w < 100"
  shows "fmt02lu w = two_digits (unat w)"
proof (cases "unat w < 10")
  case True
  then show ?thesis
    by (simp add: fmt02lu_def decimal_small two_digits_def digit_def)
next
  case False
  with assms have "unat w div 10 < 10" by simp
  with False show ?thesis
    by (simp add: fmt02lu_def decimal_small decimal_large two_digits_def)
qed

lemma entry_text_hhmmss:
  assumes "msg \<noteq> WAIT_MSG" "length msg \<le> 52" "unat t < 360000000"
  shows "entry_text msg t = ''['' @ hhmmss (unat t) @ ''] '' @ msg"
proof -
  have h: "unat (t div 1000 div 3600) = unat t div 1000 div 3600"
    and m: "unat ((t div 1000 div 60) mod 60) = unat t div 1000 div 60 mod 60"
    and s: "unat (t div 1000 mod 60) = unat t div 1000 mod 60"
    by (simp_all add: unat_div unat_mod)
  have "unat t div 1000 div 3600 < 100"
    using assms(3) by simp
  then have "fmt02lu (t div 1000 div 3600) = two_digits (unat t div 1000 div 3600)"
    using fmt02lu_two_digits [of "t div 1000 div 3600"] h by simp
  moreover have "fmt02lu ((t div 1000 div 60) mod 60) = two_digits (unat t div 1000 div 60 mod 60)"
    using fmt02lu_two_digits [of "(t div 1000 div 60) mod 60"] m by simp
  moreover have "fmt02lu (t div 1000 mod 60) = two_digits (unat t div 1000 mod 60)"
    using fmt02lu_two_digits [of "t div 1000 mod 60"] s by simp
  ultimately show ?thesis
    using assms(1,2)
    by (simp add: entry_text_def hhmmss_def Let_def snprintf_def two_digits_def)
qed

lemma hhmmss_2000: "hhmmss 2000 = ''00:00:02''"
  by (simp add: hhmmss_def two_digits_def digit_def)

subsection \<open>Facts about a cycle\<close>

lemma total_delay_append: "total_delay (xs @ ys) = total_delay xs + total_delay ys"
  by (simp add: total_delay_def)

lemma loop_total:
  assumes "arrays_ok s"
  shows "\<exists>s'. loop dht s = Some s' \<and> arrays_ok s' \<and> since s s' = cycle_events dht s"
proof (cases "isnan (readTemperature dht) \<or> isnan (readHumidity dht)")
  case True
  show ?thesis
    using assms
    by (simp add: cycle_events_def loop_invalid_run [OF assms True] arrays_ok_def)
next
  case False
  show ?thesis
    using assms
    by (simp add: cycle_events_def loop_valid_run [OF assms False] arrays_ok_def)
qed

lemma serial_lines_invalid:
  "serial_lines (invalid_events now) =
     [''Log & Status:                                    '',
      ''  '' @ entry_text ''Measurement received from DHT11.'' now,
      ''  '' @ entry_text ''Sensor error: nan values.'' now,
      ''  '' @ WAIT_MSG,
      BLANK_LINE, BLANK_LINE, BLANK_LINE, BLANK_LINE,
      ''+----------------------------------------------------+'',
      ''| HexKernel | GitHub Repository                      |'',
      ''| github.com/HexKernel/Arduino-DHT11-Weather-Station |'',
      ''+----------------------------------------------------+'']"
  by (simp add: invalid_events_def serial_lines_def blink_wait_def replicate_8)

lemma take4_invalid:
  "take 4 (invalid_events now) =
     [ReadTemperature, ReadHumidity, ClearLog, AddLog ''Measurement received from DHT11.'' 0]"
  by (simp add: invalid_events_def)

lemma take4_valid:
  "take 4 (valid_events dht now) =
     [ReadTemperature, ReadHumidity, ClearLog, AddLog ''Measurement received from DHT11.'' 0]"
  by (simp add: valid_events_def)

lemma take4_cycle:
  assumes "arrays_ok s"
  shows "take 4 (cycle_events dht s) =
     [ReadTemperature, ReadHumidity, ClearLog, AddLog ''Measurement received from DHT11.'' 0]"
proof (cases "isnan (readTemperature dht) \<or> isnan (readHumidity dht)")
  case True
  show ?thesis
    by (simp only: cycle_events_invalid [OF assms True] take4_invalid)
next
  case False
  show ?thesis
    by (simp only: cycle_events_valid [OF assms False] take4_valid)
qed

lemma started_fields:
  "log_history started = [[], [], [], [], [], []]"
  "log_times started = [0, 0, 0, 0, 0, 0]"
  "log_count started = 0"
  "clock started = 2000"
  by (simp_all add: started_def boot_def LOG_SIZE_def eval_nat_numeral)

lemma failed_cycle_state:
  "loop failed_sensor started = Some (started\<lparr>
     log_history := [''Measurement received from DHT11.'', ''Sensor error: nan values.'', WAIT_MSG, [], [], []],
     log_times := [2000, 2000, 2000, 0, 0, 0],
     log_count := 3, clock := 22000,
     trace := trace started @ invalid_events 2000\<rparr>)"
proof -
  have n: "isnan (readTemperature failed_sensor) \<or> isnan (readHumidity failed_sensor)"
    by (simp add: failed_sensor_def)
  show ?thesis
    by (simp add: loop_invalid_run [OF arrays_ok_started n] started_fields)
qed

subsection \<open>Sequences of appends\<close>

lemma delay_emits: "delay ms s = Some (emits [Delay ms] (s\<lparr>clock := clock s + ms\<rparr>))"
  by (simp add: delay_def emit_def emits_def)

lemma log_all_append:
  "log_all (xs @ ys) s = (case log_all xs s of None \<Rightarrow> None | Some s' \<Rightarrow> log_all ys s')"
  by (induction xs arbitrary: s) (auto simp: delay_def emit_def split: option.splits Option.bind_splits)

lemma log_all_fill:
  assumes "arrays_ok s" and "0 \<le> log_count s" and "log_count s + int (length es) \<le> LOG_SIZE"
  shows "\<exists>s' evs. log_all es s = Some s' \<and> arrays_ok s' \<and> trace s' = trace s @ evs
     \<and> \<not> list_ex evicting evs
     \<and> log_count s' = log_count s + int (length es)
     \<and> take (nat (log_count s) + length es) (log_history s')
         = take (nat (log_count s)) (log_history s) @ map snd es"
  using assms
proof (induction es arbitrary: s)
  case Nil
  then show ?case by simp
next
  case (Cons e es)
  obtain wait msg where e: "e = (wait, msg)" by (cases e)
  let ?s0 = "emits [Delay wait] (s\<lparr>clock := clock s + wait\<rparr>)"
  let ?k = "log_count s"
  let ?s1 = "?s0\<lparr>log_history := (log_history ?s0)[nat ?k := msg],
           log_times := (log_times ?s0)[nat ?k := clock ?s0],
           log_count := ?k + 1,
           trace := trace ?s0 @ [AddLog msg ?k]\<rparr>"
  have ok0: "arrays_ok ?s0" using Cons.prems(1) by (simp add: arrays_ok_def)
  have k: "0 \<le> ?k" "?k < LOG_SIZE" using Cons.prems(2,3) by simp_all
  have a: "add_log msg ?s0 = Some ?s1"
    using add_log_append [of ?s0 msg] ok0 k by simp
  have ok1: "arrays_ok ?s1" using Cons.prems(1) by (simp add: arrays_ok_def)
  have "\<exists>s' evs. log_all es ?s1 = Some s' \<and> arrays_ok s' \<and> trace s' = trace ?s1 @ evs
     \<and> \<not> list_ex evicting evs
     \<and> log_count s' = log_count ?s1 + int (length es)
     \<and> take (nat (log_count ?s1) + length es) (log_history s')
         = take (nat (log_count ?s1)) (log_history ?s1) @ map snd es"
    using Cons.prems(2,3) by (intro Cons.IH ok1) simp_all
  then obtain s' evs where r: "log_all es ?s1 = Some s'" "arrays_ok s'" "trace s' = trace ?s1 @ evs"
     "\<not> list_ex evicting evs" "log_count s' = log_count ?s1 + int (length es)"
     "take (nat (log_count ?s1) + length es) (log_history s')
         = take (nat (log_count ?s1)) (log_history ?s1) @ map snd es"
    by blast
  have len: "nat ?k < length (log_history s)"
    using Cons.prems(1) k unfolding arrays_ok_def by linarith
  have t: "take (nat (?k + 1)) ((log_history s)[nat ?k := msg]) = take (nat ?k) (log_history s) @ [msg]"
    using len k(1) by (simp add: nat_add_distrib take_Suc_conv_app_nth)
  have n: "nat (?k + 1) + length es = nat ?k + length (e # es)"
    using k(1) by (simp add: nat_add_distrib)
  have run: "log_all (e # es) s = Some s'"
    using r(1) by (simp add: e delay_emits a)
  have tr: "trace s' = trace s @ (Delay wait # AddLog msg ?k # evs)"
    using r(3) by simp
  have ev: "\<not> list_ex evicting (Delay wait # AddLog msg ?k # evs)"
    using r(4) k(2) by simp
  have cnt: "log_count s' = ?k + int (length (e # es))"
    using r(5) by simp
  have hist: "take (nat ?k + length (e # es)) (log_history s')
         = take (nat ?k) (log_history s) @ map snd (e # es)"
    using r(6) t n by (simp add: e)
  show ?case
    using run r(2) tr ev cnt hist by blast
qed

lemma clear_log_emits: "clear_log s = Some (emits [ClearLog] (s\<lparr>log_count := 0\<rparr>))"
  by (simp add: clear_log_def emit_def emits_def)

subsection \<open>Runs of the sketch\<close>

lemma evicting_iff: "evicting e \<longleftrightarrow> (\<exists>msg k. e = AddLog msg k \<and> \<not> k < LOG_SIZE)"
  by (cases e) simp_all

lemma serial_not_add_log: "list_all is_serial es \<Longrightarrow> AddLog msg k \<notin> set es"
  by (induction es) auto

lemma invalid_events_fit:
  "AddLog msg k \<in> set (invalid_events now) \<Longrightarrow> 0 \<le> k \<and> k < 5"
  by (auto simp: invalid_events_def blink_wait_def replicate_8)

lemma valid_events_fit:
  "AddLog msg k \<in> set (valid_events dht now) \<Longrightarrow> 0 \<le> k \<and> k < 5"
  using serial_not_add_log [OF panel_events_serial]
  by (auto simp: valid_events_def blink_wait_def replicate_8 eval_nat_numeral)

lemma cycle_events_fit:
  assumes "arrays_ok s" and "AddLog msg k \<in> set (cycle_events dht s)"
  shows "0 \<le> k \<and> k < 5"
proof (cases "isnan (readTemperature dht) \<or> isnan (readHumidity dht)")
  case True
  show ?thesis
    using assms(2) invalid_events_fit by (simp add: cycle_events_invalid [OF assms(1) True])
next
  case False
  show ?thesis
    using assms(2) valid_events_fit by (simp add: cycle_events_valid [OF assms(1) False])
qed

lemma loop_run:
  assumes "arrays_ok s"
  shows "\<exists>s'. loop dht s = Some s' \<and> arrays_ok s' \<and> trace s' = trace s @ cycle_events dht s
     \<and> 0 \<le> log_count s' \<and> log_count s' \<le> 5"
proof (cases "isnan (readTemperature dht) \<or> isnan (readHumidity dht)")
  case True
  show ?thesis
    using assms
    by (simp add: cycle_events_def loop_invalid_run [OF assms True] arrays_ok_def since_def)
next
  case False
  show ?thesis
    using assms
    by (simp add: cycle_events_def loop_valid_run [OF assms False] arrays_ok_def since_def)
qed

lemma cycles_run:
  assumes "arrays_ok s" and "0 \<le> log_count s" and "log_count s \<le> 5"
  shows "\<exists>s' evs. cycles answers s = Some s' \<and> arrays_ok s' \<and> trace s' = trace s @ evs
     \<and> (\<forall>msg k. AddLog msg k \<in> set evs \<longrightarrow> 0 \<le> k \<and> k < 5)
     \<and> 0 \<le> log_count s' \<and> log_count s' \<le> 5"
  using assms
proof (induction answers arbitrary: s)
  case Nil
  then show ?case by simp
next
  case (Cons dht rest)
  from loop_run [OF Cons.prems(1), of dht] obtain s1 where
    s1: "loop dht s = Some s1" "arrays_ok s1" "trace s1 = trace s @ cycle_events dht s"
      "0 \<le> log_count s1" "log_count s1 \<le> 5"
    by blast
  from Cons.IH [OF s1(2,4,5)] obtain s' evs where
    r: "cycles rest s1 = Some s'" "arrays_ok s'" "trace s' = trace s1 @ evs"
      "\<forall>msg k. AddLog msg k \<in> set evs \<longrightarrow> 0 \<le> k \<and> k < 5"
      "0 \<le> log_count s'" "log_count s' \<le> 5"
    by blast
  have fit: "\<forall>msg k. AddLog msg k \<in> set (cycle_events dht s @ evs) \<longrightarrow> 0 \<le> k \<and> k < 5"
    using r(4) cycle_events_fit [OF Cons.prems(1)] by auto
  have "cycles (dht # rest) s = Some s'"
    by (simp add: s1(1) r(1))
  moreover have "trace s' = trace s @ (cycle_events dht s @ evs)"
    by (simp add: r(3) s1(3))
  ultimately show ?case
    using r(2,5,6) fit by blast
qed

subsection \<open>The wait of each branch, the serial events of a failed cycle\<close>

lemma filter_serial_invalid:
  "filter is_serial (invalid_events now) =
     [Println ''Log & Status:                                    '',
      Print ''  '', Println (entry_text ''Measurement received from DHT11.'' now),
      Print ''  '', Println (entry_text ''Sensor error: nan values.'' now),
      Print ''  '', Println WAIT_MSG,
      Println BLANK_LINE, Println BLANK_LINE, Println BLANK_LINE, Println BLANK_LINE,
      Println ''+----------------------------------------------------+'',
      Println ''| HexKernel | GitHub Repository                      |'',
      Println ''| github.com/HexKernel/Arduino-DHT11-Weather-Station |'',
      Println ''+----------------------------------------------------+'']"
  by (simp add: invalid_events_def blink_wait_def replicate_8)

lemma valid_cycle_wait:
  assumes "arrays_ok s" and "\<not> (isnan (readTemperature dht) \<or> isnan (readHumidity dht))"
  shows "total_delay (after_render (cycle_events dht s)) = 15000"
  by (simp add: cycle_events_valid [OF assms] after_render_valid total_delay_blink_wait)

subsection \<open>Long messages and late timestamps\<close>

lemma log_section_of_single:
  "log_section_of [(wait, msg)] ! 1 = ''  '' @ entry_text msg (2000 + wait)"
proof -
  let ?s0 = "emits [ClearLog] (started\<lparr>log_count := 0\<rparr>)"
  let ?s1 = "emits [Delay wait] (?s0\<lparr>clock := clock ?s0 + wait\<rparr>)"
  let ?s = "?s1\<lparr>log_history := (log_history ?s1)[nat (log_count ?s1) := msg],
           log_times := (log_times ?s1)[nat (log_count ?s1) := clock ?s1],
           log_count := log_count ?s1 + 1,
           trace := trace ?s1 @ [AddLog msg (log_count ?s1)]\<rparr>"
  have ok1: "arrays_ok ?s1"
    using arrays_ok_started by (simp add: arrays_ok_def)
  have a: "add_log msg ?s1 = Some ?s"
    by (rule add_log_append [OF _ _ ok1]) (simp_all add: LOG_SIZE_def)
  have ok: "arrays_ok ?s" "0 \<le> log_count ?s" "log_count ?s \<le> LOG_SIZE"
    using arrays_ok_started by (simp_all add: arrays_ok_def LOG_SIZE_def)
  from print_log_section_lines [OF ok] obtain s' where
    p: "print_log_section ?s = Some s'" and
    l: "serial_lines (since ?s s') =
             ''Log & Status:                                    ''
             # map (\<lambda>e. ''  '' @ entry_text (fst e) (snd e))
                 (take (nat (log_count ?s)) (zip (log_history ?s) (log_times ?s)))
             @ replicate (nat (LOG_SIZE - log_count ?s)) BLANK_LINE @ [BLANK_LINE]"
    by blast
  have run: "log_section_of [(wait, msg)] = serial_lines (since ?s s')"
    using a p by (simp add: log_section_of_def clear_log_emits delay_emits)
  show ?thesis
    unfolding run l by (simp add: started_fields)
qed

lemma fmt02lu_values:
  "fmt02lu 0 = ''00''" "fmt02lu 2 = ''02''" "fmt02lu 100 = ''100''"
  by (simp_all add: fmt02lu_def decimal_small decimal_large digit_def)

lemma entry_text_cut:
  "entry_text ''Sensor error: nan values, check the wiring of the DHT'' 2000
     = ''[00:00:02] Sensor error: nan values, check the wiring of the DH''"
  "entry_text ''Sensor error: nan values, check the wiring of the DH'' 360000000
     = ''[100:00:00] Sensor error: nan values, check the wiring of the D''"
  by (simp_all add: entry_text_def WAIT_MSG_def snprintf_def fmt02lu_values)

subsection \<open>The exponential at the reference reading\<close>

lemma exp_taylor12:
  fixes x :: real
  assumes "0 < x" and "x \<le> 2"
  shows "(\<Sum>m<12. x ^ m / fact m) < exp x"
    and "exp x \<le> (\<Sum>m<12. x ^ m / fact m) + 9 * x ^ 12 / fact 12"
proof -
  from Maclaurin_exp_le [of x 12] obtain t where
    t: "\<bar>t\<bar> \<le> \<bar>x\<bar>" and e: "exp x = (\<Sum>m<12. x ^ m / fact m) + (exp t / fact 12) * x ^ 12"
    by blast
  have pos: "0 < (exp t / fact 12) * x ^ 12"
    using assms(1) by simp
  show "(\<Sum>m<12. x ^ m / fact m) < exp x"
    using pos e by linarith
  have "t \<le> 2" using t assms by linarith
  then have "exp t \<le> exp 2" by simp
  also have "exp (2::real) = exp 1 * exp 1"
    by (simp flip: exp_add)
  also have "\<dots> \<le> 3 * 3"
    using exp_le by (intro mult_mono) simp_all
  finally have "exp t \<le> 9" by simp
  then have "(exp t / fact 12) * x ^ 12 \<le> (9 / fact 12) * x ^ 12"
    using assms(1) by (intro mult_right_mono divide_right_mono) simp_all
  then show "exp x \<le> (\<Sum>m<12. x ^ m / fact m) + 9 * x ^ 12 / fact 12"
    using e by simp
qed

lemma exp_reference:
  "5.819 < exp (7929 / 4502 :: real)" "exp (7929 / 4502 :: real) < 5.8196"
proof -
  have x: "0 < (7929 / 4502 :: real)" "(7929 / 4502 :: real) \<le> 2" by simp_all
  have lo: "(5.819 :: real) < (\<Sum>m<12. (7929 / 4502) ^ m / fact m)"
    by (simp add: lessThan_nat_numeral lessThan_Suc fact_numeral power_divide)
  have hi: "(\<Sum>m<12. (7929 / 4502) ^ m / fact m) + 9 * (7929 / 4502) ^ 12 / fact 12 < (5.8196 :: real)"
    by (simp add: lessThan_nat_numeral lessThan_Suc fact_numeral power_divide)
  show "5.819 < exp (7929 / 4502 :: real)"
    using lo exp_taylor12(1) [OF x] by linarith
  show "exp (7929 / 4502 :: real) < 5.8196"
    using hi exp_taylor12(2) [OF x] by linarith
qed

lemma exp_argument: "(17.62 * 27) / (243.12 + 27) = (7929 / 4502 :: real)"
  by simp

section \<open>The claims\<close>

text \<open>
  C1. The claim: both branches of \<open>loop\<close> end with the same total wait between the end
  of rendering and the end of the cycle. The code does otherwise. After a failed read the
  delays that follow the last line written add up to 20000 ms (eight times 1875 ms, then
  5000 ms); after a valid read they add up to 15000 ms (eight times 1875 ms). The comments
  of both branches announce a wait of 10 seconds. The theorem runs one cycle of each kind
  from the state that \<open>setup_board\<close> leaves.
\<close>

theorem loop_wait_differs:
  "total_delay (after_render (cycle_events failed_sensor started)) = 20000 \<and>
   total_delay (after_render (cycle_events sample_sensor started)) = 15000"
proof -
  have "cycle_events failed_sensor started = invalid_events (clock started)"
    by (rule cycle_events_invalid) (simp_all add: arrays_ok_started failed_sensor_def)
  moreover have "cycle_events sample_sensor started = valid_events sample_sensor (clock started)"
    by (rule cycle_events_valid) (simp_all add: arrays_ok_started sample_sensor_def)
  ultimately show ?thesis
    using total_delay_blink_wait
    by (simp add: after_render_invalid after_render_valid total_delay_def)
qed

text \<open>
  C2. The claim: a cycle in which the temperature or the humidity read is NaN computes and
  renders no metric, logs the sensor error and the wait marker, renders the log section
  and the instructions only, waits the fixed window and returns, without a fatal state
  and without backoff. The code does all of it but the window. \<open>loop\<close> returns, in a
  state from which the next cycle returns as well, whatever the sensor answers then; the
  heat index is not computed; the log holds the entry of the read, the sensor error and
  the wait marker; the serial events are those of the log section and the instructions,
  the last of them ending its line; the delays after the last line are the same from
  every state (no backoff). But they add up to 20000 ms: not the 10 seconds that the
  comment of the branch and the wait marker announce, and not the 15000 ms that every
  valid cycle waits. This is the defect of C1.
\<close>

theorem invalid_reading_cycle:
  assumes "arrays_ok s" and "isnan (readTemperature dht) \<or> isnan (readHumidity dht)"
  shows "\<exists>s'. loop dht s = Some s'
     \<and> arrays_ok s'
     \<and> (\<forall>next. \<exists>s''. loop next s' = Some s'')
     \<and> ComputeHeatIndex \<notin> set (since s s')
     \<and> log_count s' = 3
     \<and> take 3 (log_history s') =
         [''Measurement received from DHT11.'', ''Sensor error: nan values.'', WAIT_MSG]
     \<and> take 3 (log_times s') = [clock s, clock s, clock s]
     \<and> filter is_serial (since s s') =
         [Println ''Log & Status:                                    '',
          Print ''  '', Println (entry_text ''Measurement received from DHT11.'' (clock s)),
          Print ''  '', Println (entry_text ''Sensor error: nan values.'' (clock s)),
          Print ''  '', Println WAIT_MSG,
          Println BLANK_LINE, Println BLANK_LINE, Println BLANK_LINE, Println BLANK_LINE,
          Println ''+----------------------------------------------------+'',
          Println ''| HexKernel | GitHub Repository                      |'',
          Println ''| github.com/HexKernel/Arduino-DHT11-Weather-Station |'',
          Println ''+----------------------------------------------------+'']
     \<and> serial_lines (since s s') =
         [''Log & Status:                                    '',
          ''  '' @ entry_text ''Measurement received from DHT11.'' (clock s),
          ''  '' @ entry_text ''Sensor error: nan values.'' (clock s),
          ''  '' @ WAIT_MSG,
          BLANK_LINE, BLANK_LINE, BLANK_LINE, BLANK_LINE,
          ''+----------------------------------------------------+'',
          ''| HexKernel | GitHub Repository                      |'',
          ''| github.com/HexKernel/Arduino-DHT11-Weather-Station |'',
          ''+----------------------------------------------------+'']
     \<and> total_delay (after_render (since s s')) = 20000
     \<and> total_delay (after_render (since s s')) \<noteq> 10000
     \<and> (\<forall>valid s2. arrays_ok s2 \<and> \<not> (isnan (readTemperature valid) \<or> isnan (readHumidity valid))
           \<longrightarrow> total_delay (after_render (cycle_events valid s2)) = 15000)
     \<and> clock s' = clock s + 20000"
proof -
  let ?s' = "s\<lparr>
           log_history := (log_history s)[0 := ''Measurement received from DHT11.'',
                                          1 := ''Sensor error: nan values.'', 2 := WAIT_MSG],
           log_times := (log_times s)[0 := clock s, 1 := clock s, 2 := clock s],
           log_count := 3,
           clock := clock s + 20000,
           trace := trace s @ invalid_events (clock s)\<rparr>"
  have run: "loop dht s = Some ?s'"
    by (rule loop_invalid_run [OF assms])
  have ok: "arrays_ok ?s'"
    using assms(1) by (simp add: arrays_ok_def)
  have next_ok: "\<forall>next. \<exists>s''. loop next ?s' = Some s''"
    using loop_total [OF ok] by blast
  have ev: "since s ?s' = invalid_events (clock s)"
    by (simp add: since_def)
  have quiet: "ComputeHeatIndex \<notin> set (invalid_events (clock s))"
    by (simp add: invalid_events_def blink_wait_def replicate_8)
  from assms(1) obtain a b c d e f a' b' c' d' e' f'
    where h: "log_history s = [a, b, c, d, e, f]" and t: "log_times s = [a', b', c', d', e', f']"
    by (rule arrays_ok_lists)
  have wait: "total_delay (after_render (invalid_events (clock s))) = 20000"
    by (simp add: after_render_invalid total_delay_append total_delay_blink_wait)
       (simp add: total_delay_def)
  have other: "\<forall>valid s2. arrays_ok s2 \<and> \<not> (isnan (readTemperature valid) \<or> isnan (readHumidity valid))
           \<longrightarrow> total_delay (after_render (cycle_events valid s2)) = 15000"
    using valid_cycle_wait by blast
  have c4: "ComputeHeatIndex \<notin> set (since s ?s')"
    by (simp only: ev) (rule quiet)
  have c5: "log_count ?s' = 3"
    by simp
  have c6: "take 3 (log_history ?s') =
         [''Measurement received from DHT11.'', ''Sensor error: nan values.'', WAIT_MSG]"
    by (simp add: h)
  have c7: "take 3 (log_times ?s') = [clock s, clock s, clock s]"
    by (simp add: t)
  have c8: "filter is_serial (since s ?s') =
         [Println ''Log & Status:                                    '',
          Print ''  '', Println (entry_text ''Measurement received from DHT11.'' (clock s)),
          Print ''  '', Println (entry_text ''Sensor error: nan values.'' (clock s)),
          Print ''  '', Println WAIT_MSG,
          Println BLANK_LINE, Println BLANK_LINE, Println BLANK_LINE, Println BLANK_LINE,
          Println ''+----------------------------------------------------+'',
          Println ''| HexKernel | GitHub Repository                      |'',
          Println ''| github.com/HexKernel/Arduino-DHT11-Weather-Station |'',
          Println ''+----------------------------------------------------+'']"
    by (simp only: ev filter_serial_invalid)
  have c9: "serial_lines (since s ?s') =
         [''Log & Status:                                    '',
          ''  '' @ entry_text ''Measurement received from DHT11.'' (clock s),
          ''  '' @ entry_text ''Sensor error: nan values.'' (clock s),
          ''  '' @ WAIT_MSG,
          BLANK_LINE, BLANK_LINE, BLANK_LINE, BLANK_LINE,
          ''+----------------------------------------------------+'',
          ''| HexKernel | GitHub Repository                      |'',
          ''| github.com/HexKernel/Arduino-DHT11-Weather-Station |'',
          ''+----------------------------------------------------+'']"
    by (simp only: ev serial_lines_invalid)
  have c10: "total_delay (after_render (since s ?s')) = 20000"
    by (simp only: ev wait)
  have c11: "total_delay (after_render (since s ?s')) \<noteq> 10000"
    by (simp only: c10)
  have c12: "clock ?s' = clock s + 20000"
    by simp
  show ?thesis
    by (rule exI [of _ ?s']) (intro conjI run ok next_ok c4 c5 c6 c7 c8 c9 c10 c11 other c12)
qed

theorem invalid_reading_cycle_witness:
  "arrays_ok started \<and> isnan (readTemperature failed_sensor) \<and>
   arrays_ok started \<and> \<not> (isnan (readTemperature sample_sensor) \<or> isnan (readHumidity sample_sensor)) \<and>
   (\<exists>s'. loop failed_sensor started = Some s' \<and> log_count s' = 3 \<and> clock s' = 22000 \<and>
      serial_lines (since started s') ! 2 = ''  [00:00:02] Sensor error: nan values.'' \<and>
      total_delay (after_render (since started s')) = 20000) \<and>
   total_delay (after_render (cycle_events sample_sensor started)) = 15000"
proof -
  have n: "isnan (readTemperature failed_sensor) \<or> isnan (readHumidity failed_sensor)"
    by (simp add: failed_sensor_def)
  have v: "\<not> (isnan (readTemperature sample_sensor) \<or> isnan (readHumidity sample_sensor))"
    by (simp add: sample_sensor_def)
  have e: "entry_text ''Sensor error: nan values.'' 2000 = ''[00:00:02] Sensor error: nan values.''"
    using entry_text_hhmmss [of "''Sensor error: nan values.''" 2000]
    by (simp add: WAIT_MSG_def hhmmss_2000)
  have c: "clock started = 2000"
    by (simp add: started_def)
  from invalid_reading_cycle [OF arrays_ok_started n]
  obtain s' where r: "loop failed_sensor started = Some s'" "log_count s' = 3"
    "clock s' = clock started + 20000"
    "serial_lines (since started s') ! 2 = ''  '' @ entry_text ''Sensor error: nan values.'' (clock started)"
    "total_delay (after_render (since started s')) = 20000"
    and o: "\<forall>valid s2. arrays_ok s2 \<and> \<not> (isnan (readTemperature valid) \<or> isnan (readHumidity valid))
           \<longrightarrow> total_delay (after_render (cycle_events valid s2)) = 15000"
    by auto
  from o arrays_ok_started v
  have w: "total_delay (after_render (cycle_events sample_sensor started)) = 15000"
    by blast
  have "\<exists>s'. loop failed_sensor started = Some s' \<and> log_count s' = 3 \<and> clock s' = 22000 \<and>
      serial_lines (since started s') ! 2 = ''  [00:00:02] Sensor error: nan values.'' \<and>
      total_delay (after_render (since started s')) = 20000"
    using r by (simp add: c e)
  then show ?thesis
    using arrays_ok_started n v w by (simp add: failed_sensor_def)
qed

text \<open>
  C3. Seven messages appended to a cleared log leave six entries, the second message
  first and the seventh last. In general \<open>add_log\<close> on a full log drops the entry at
  index 0, moves the others down by one place in their order and puts the new entry, with
  the time of the call, at the end; the count stays at \<open>LOG_SIZE\<close>.
\<close>

theorem seventh_append_evicts_oldest:
  assumes "arrays_ok s" and "length entries = 7"
    and "arrays_ok full" and "log_count full = LOG_SIZE"
  shows "(\<exists>s0 s'. clear_log s = Some s0 \<and> log_all entries s0 = Some s'
            \<and> log_count s' = 6
            \<and> log_history s' = map snd (tl entries)
            \<and> hd (log_history s') = snd (entries ! 1)
            \<and> last (log_history s') = snd (entries ! 6))
       \<and> add_log msg full = Some (full\<lparr>
            log_history := tl (log_history full) @ [msg],
            log_times := tl (log_times full) @ [clock full],
            trace := trace full @ [AddLog msg LOG_SIZE]\<rparr>)"
proof (intro conjI)
  show "add_log msg full = Some (full\<lparr>
            log_history := tl (log_history full) @ [msg],
            log_times := tl (log_times full) @ [clock full],
            trace := trace full @ [AddLog msg LOG_SIZE]\<rparr>)"
    using add_log_evict [of full msg] assms(3,4) by simp
next
  from assms(2) obtain e1 e2 e3 e4 e5 e6 e7 where es: "entries = [e1, e2, e3, e4, e5, e6, e7]"
    by (auto simp: numeral_eq_Suc length_Suc_conv)
  let ?front = "[e1, e2, e3, e4, e5, e6]"
  obtain wait msg7 where e7: "e7 = (wait, msg7)" by (cases e7)
  let ?s0 = "emits [ClearLog] (s\<lparr>log_count := 0\<rparr>)"
  have ok0: "arrays_ok ?s0"
    using assms(1) by (simp add: arrays_ok_def)
  have "\<exists>s' evs. log_all ?front ?s0 = Some s' \<and> arrays_ok s' \<and> trace s' = trace ?s0 @ evs
     \<and> \<not> list_ex evicting evs
     \<and> log_count s' = log_count ?s0 + int (length ?front)
     \<and> take (nat (log_count ?s0) + length ?front) (log_history s')
         = take (nat (log_count ?s0)) (log_history ?s0) @ map snd ?front"
    by (intro log_all_fill ok0) (simp_all add: LOG_SIZE_def)
  then obtain s6 where run6: "log_all ?front ?s0 = Some s6" and ok6': "arrays_ok s6"
      and cnt6: "log_count s6 = log_count ?s0 + int (length ?front)"
      and take6: "take (nat (log_count ?s0) + length ?front) (log_history s6)
         = take (nat (log_count ?s0)) (log_history ?s0) @ map snd ?front"
    by blast
  have len6: "length (log_history s6) = length ?front"
    using ok6' by (simp add: arrays_ok_def LOG_SIZE_def)
  have h6: "log_history s6 = map snd ?front"
    using take6 len6 by simp
  note r = run6 ok6' cnt6 [simplified]
  let ?s6' = "emits [Delay wait] (s6\<lparr>clock := clock s6 + wait\<rparr>)"
  have ok6: "arrays_ok ?s6'" using r(2) by (simp add: arrays_ok_def)
  have full: "\<not> log_count ?s6' < LOG_SIZE" using r(3) by (simp add: LOG_SIZE_def)
  let ?s7 = "?s6'\<lparr>log_history := tl (log_history ?s6') @ [msg7],
           log_times := tl (log_times ?s6') @ [clock ?s6'],
           trace := trace ?s6' @ [AddLog msg7 (log_count ?s6')]\<rparr>"
  have last_call: "log_all [e7] s6 = Some ?s7"
    using add_log_evict [OF full ok6, of msg7] by (simp add: e7 delay_emits)
  have "entries = ?front @ [e7]" by (simp add: es)
  then have run: "log_all entries ?s0 = Some ?s7"
    using r(1) last_call by (simp only: log_all_append option.case)
  have hist: "log_history ?s7 = map snd (tl entries)"
    by (simp add: h6 es e7)
  show "\<exists>s0 s'. clear_log s = Some s0 \<and> log_all entries s0 = Some s'
            \<and> log_count s' = 6
            \<and> log_history s' = map snd (tl entries)
            \<and> hd (log_history s') = snd (entries ! 1)
            \<and> last (log_history s') = snd (entries ! 6)"
  proof (rule exI [of _ ?s0], rule exI [of _ ?s7], intro conjI)
    show "clear_log s = Some ?s0" by (rule clear_log_emits)
    show "log_all entries ?s0 = Some ?s7" by (rule run)
    show "log_count ?s7 = 6" using r(3) by simp
    show "log_history ?s7 = map snd (tl entries)" by (rule hist)
    show "hd (log_history ?s7) = snd (entries ! 1)" by (simp only: hist) (simp add: es)
    show "last (log_history ?s7) = snd (entries ! 6)" by (simp only: hist) (simp add: es)
  qed
qed

theorem seventh_append_evicts_oldest_witness:
  "arrays_ok started
   \<and> length [(0 :: ulong, ''m1''), (1, ''m2''), (2, ''m3''), (3, ''m4''), (4, ''m5''), (5, ''m6''), (6, ''m7'')] = 7
   \<and> arrays_ok (started\<lparr>log_count := 6\<rparr>) \<and> log_count (started\<lparr>log_count := 6\<rparr>) = LOG_SIZE
   \<and> (\<exists>s0 s'. clear_log started = Some s0
         \<and> log_all [(0, ''m1''), (1, ''m2''), (2, ''m3''), (3, ''m4''), (4, ''m5''), (5, ''m6''), (6, ''m7'')] s0 = Some s'
         \<and> log_count s' = 6
         \<and> log_history s' = [''m2'', ''m3'', ''m4'', ''m5'', ''m6'', ''m7''])
   \<and> (\<exists>s'. add_log ''late'' (started\<lparr>log_count := 6\<rparr>) = Some s'
         \<and> log_history s' = [[], [], [], [], [], ''late''])"
proof -
  have ok: "arrays_ok (started\<lparr>log_count := 6\<rparr>)"
    using arrays_ok_started by (simp add: arrays_ok_def)
  have c: "log_count (started\<lparr>log_count := 6\<rparr>) = LOG_SIZE"
    by (simp add: LOG_SIZE_def)
  have l: "length [(0 :: ulong, ''m1''), (1, ''m2''), (2, ''m3''), (3, ''m4''), (4, ''m5''), (5, ''m6''), (6, ''m7'')] = 7"
    by simp
  from seventh_append_evicts_oldest [OF arrays_ok_started l ok c, of "''late''"]
  show ?thesis
    using arrays_ok_started ok c by (auto simp: started_fields)
qed

text \<open>
  C4, as amended. For an entry of the log at index \<open>i\<close>, the line \<open>i + 1\<close> of the log
  section is: two spaces and the wait marker alone when the message is the wait marker;
  otherwise two spaces and the first 63 characters of \<open>[H:M:S] message\<close>, where \<open>H\<close>,
  \<open>M\<close> and \<open>S\<close> are the hours, the minutes within the hour and the seconds within the
  minute of the timestamp, each written in decimal with at least two digits. When moreover
  the message has at most 52 characters and the timestamp is below 100 hours
  (360000000 ms), the line is two spaces and \<open>[HH:MM:SS] message\<close> in full, with two
  digits in each field.
\<close>

theorem log_entry_line:
  assumes "arrays_ok s" and "0 \<le> log_count s" and "log_count s \<le> LOG_SIZE"
    and "i < nat (log_count s)"
  shows "\<exists>s'. print_log_section s = Some s' \<and>
     (log_history s ! i = WAIT_MSG \<longrightarrow>
        serial_lines (since s s') ! (i + 1) = ''  '' @ WAIT_MSG) \<and>
     (log_history s ! i \<noteq> WAIT_MSG \<longrightarrow>
        serial_lines (since s s') ! (i + 1) =
          ''  '' @ take 63 (''['' @ fmt02lu (log_times s ! i div 1000 div 3600)
            @ '':'' @ fmt02lu ((log_times s ! i div 1000 div 60) mod 60)
            @ '':'' @ fmt02lu (log_times s ! i div 1000 mod 60)
            @ ''] '' @ log_history s ! i)) \<and>
     (log_history s ! i \<noteq> WAIT_MSG \<and> length (log_history s ! i) \<le> 52
        \<and> unat (log_times s ! i) < 360000000 \<longrightarrow>
        serial_lines (since s s') ! (i + 1) =
          ''  ['' @ hhmmss (unat (log_times s ! i)) @ ''] '' @ log_history s ! i)"
proof -
  from print_log_section_lines [OF assms(1-3)] obtain s' where
    run: "print_log_section s = Some s'" and
    lines: "serial_lines (since s s') =
             ''Log & Status:                                    ''
             # map (\<lambda>e. ''  '' @ entry_text (fst e) (snd e))
                 (take (nat (log_count s)) (zip (log_history s) (log_times s)))
             @ replicate (nat (LOG_SIZE - log_count s)) BLANK_LINE @ [BLANK_LINE]"
    by blast
  have len: "length (log_history s) = 6" "length (log_times s) = 6"
    using assms(1) by (simp_all add: arrays_ok_def LOG_SIZE_def)
  have n: "nat (log_count s) \<le> 6"
    using assms(3) by (simp add: LOG_SIZE_def)
  have line: "serial_lines (since s s') ! Suc i
      = ''  '' @ entry_text (log_history s ! i) (log_times s ! i)"
    using assms(4) len n by (simp add: lines nth_append)
  show ?thesis
  proof (intro exI [of _ s'] conjI impI)
    show "print_log_section s = Some s'"
      by (rule run)
  next
    assume "log_history s ! i = WAIT_MSG"
    then show "serial_lines (since s s') ! (i + 1) = ''  '' @ WAIT_MSG"
      by (simp add: line entry_text_def)
  next
    assume "log_history s ! i \<noteq> WAIT_MSG"
    then show "serial_lines (since s s') ! (i + 1) =
          ''  '' @ take 63 (''['' @ fmt02lu (log_times s ! i div 1000 div 3600)
            @ '':'' @ fmt02lu ((log_times s ! i div 1000 div 60) mod 60)
            @ '':'' @ fmt02lu (log_times s ! i div 1000 mod 60)
            @ ''] '' @ log_history s ! i)"
      by (simp add: line entry_text_def snprintf_def)
  next
    assume "log_history s ! i \<noteq> WAIT_MSG \<and> length (log_history s ! i) \<le> 52
        \<and> unat (log_times s ! i) < 360000000"
    then have "entry_text (log_history s ! i) (log_times s ! i)
        = ''['' @ hhmmss (unat (log_times s ! i)) @ ''] '' @ log_history s ! i"
      using entry_text_hhmmss by blast
    then show "serial_lines (since s s') ! (i + 1) =
          ''  ['' @ hhmmss (unat (log_times s ! i)) @ ''] '' @ log_history s ! i"
      by (simp add: line)
  qed
qed

theorem log_entry_line_witness:
  "\<exists>s. loop failed_sensor started = Some s \<and>
     arrays_ok s \<and> 0 \<le> log_count s \<and> log_count s \<le> LOG_SIZE \<and> 2 < nat (log_count s) \<and>
     log_history s ! 0 \<noteq> WAIT_MSG \<and> length (log_history s ! 0) \<le> 52 \<and>
     unat (log_times s ! 0) < 360000000 \<and> log_history s ! 2 = WAIT_MSG \<and>
     (\<exists>s'. print_log_section s = Some s' \<and>
        serial_lines (since s s') ! 1 = ''  [00:00:02] Measurement received from DHT11.'' \<and>
        serial_lines (since s s') ! 3 = ''  === WAIT FOR 10 SECONDS FOR SCREEN TO REFRESH ==='')"
proof -
  define s where "s = started\<lparr>
     log_history := [''Measurement received from DHT11.'', ''Sensor error: nan values.'', WAIT_MSG, [], [], []],
     log_times := [2000, 2000, 2000, 0, 0, 0],
     log_count := 3, clock := 22000,
     trace := trace started @ invalid_events 2000\<rparr>"
  have run: "loop failed_sensor started = Some s"
    unfolding s_def by (rule failed_cycle_state)
  have ok: "arrays_ok s"
    by (simp add: s_def arrays_ok_def LOG_SIZE_def)
  have c: "0 \<le> log_count s" "log_count s \<le> LOG_SIZE" "0 < nat (log_count s)" "2 < nat (log_count s)"
    by (simp_all add: s_def LOG_SIZE_def)
  have h0: "log_history s ! 0 = ''Measurement received from DHT11.''"
    and h2: "log_history s ! 2 = WAIT_MSG"
    and t0: "log_times s ! 0 = 2000"
    by (simp_all add: s_def)
  have m: "log_history s ! 0 \<noteq> WAIT_MSG" "length (log_history s ! 0) \<le> 52"
    "unat (log_times s ! 0) < 360000000"
    by (simp_all add: h0 t0 WAIT_MSG_def)
  from log_entry_line [OF ok c(1,2,3)] obtain s' where
    p: "print_log_section s = Some s'" and
    l1: "log_history s ! 0 \<noteq> WAIT_MSG \<and> length (log_history s ! 0) \<le> 52
        \<and> unat (log_times s ! 0) < 360000000 \<longrightarrow>
        serial_lines (since s s') ! (0 + 1) =
          ''  ['' @ hhmmss (unat (log_times s ! 0)) @ ''] '' @ log_history s ! 0"
    by (elim exE conjE)
  from log_entry_line [OF ok c(1,2,4)] obtain s'' where
    p': "print_log_section s = Some s''" and
    l3: "log_history s ! 2 = WAIT_MSG \<longrightarrow>
        serial_lines (since s s'') ! (2 + 1) = ''  '' @ WAIT_MSG"
    by (elim exE conjE)
  from p p' have same: "s'' = s'" by simp
  have line1: "serial_lines (since s s') ! 1 = ''  [00:00:02] Measurement received from DHT11.''"
    using l1 m by (simp add: h0 t0 hhmmss_2000)
  have line3: "serial_lines (since s s') ! 3 = ''  === WAIT FOR 10 SECONDS FOR SCREEN TO REFRESH ===''"
    using l3 h2 by (simp add: same WAIT_MSG_def)
  have inner: "\<exists>s'. print_log_section s = Some s' \<and>
        serial_lines (since s s') ! 1 = ''  [00:00:02] Measurement received from DHT11.'' \<and>
        serial_lines (since s s') ! 3 = ''  === WAIT FOR 10 SECONDS FOR SCREEN TO REFRESH ===''"
    by (intro exI [of _ s'] conjI p line1 line3)
  show ?thesis
    by (intro exI [of _ s] conjI run ok c(1,2,4) m h2 inner)
qed

text \<open>
  C4 as stated fails in each of these ways. In the cycle of a failed read, started two
  seconds after reset, the wait marker is the third entry of the log and its line carries
  no timestamp; the line of the entry before it starts with two spaces. A message of 53
  characters appended to the cleared log is printed without its last character. A message
  of 52 characters appended 100 hours after reset is printed with three digits for the
  hours and without its last character.
\<close>

theorem log_entry_line_counterexample:
  "AddLog WAIT_MSG 2 \<in> set (cycle_events failed_sensor started) \<and>
   serial_lines (cycle_events failed_sensor started) ! 3
     = ''  === WAIT FOR 10 SECONDS FOR SCREEN TO REFRESH ==='' \<and>
   serial_lines (cycle_events failed_sensor started) ! 3
     \<noteq> ''[00:00:02] === WAIT FOR 10 SECONDS FOR SCREEN TO REFRESH ==='' \<and>
   serial_lines (cycle_events failed_sensor started) ! 3
     \<noteq> ''  [00:00:02] === WAIT FOR 10 SECONDS FOR SCREEN TO REFRESH ==='' \<and>
   serial_lines (cycle_events failed_sensor started) ! 2
     = ''  [00:00:02] Sensor error: nan values.'' \<and>
   serial_lines (cycle_events failed_sensor started) ! 2
     \<noteq> ''[00:00:02] Sensor error: nan values.'' \<and>
   log_section_of [(0, ''Sensor error: nan values, check the wiring of the DHT'')] ! 1
     = ''  [00:00:02] Sensor error: nan values, check the wiring of the DH'' \<and>
   log_section_of [(0, ''Sensor error: nan values, check the wiring of the DHT'')] ! 1
     \<noteq> ''  [00:00:02] Sensor error: nan values, check the wiring of the DHT'' \<and>
   log_section_of [(359998000, ''Sensor error: nan values, check the wiring of the DH'')] ! 1
     = ''  [100:00:00] Sensor error: nan values, check the wiring of the D'' \<and>
   log_section_of [(359998000, ''Sensor error: nan values, check the wiring of the DH'')] ! 1
     \<noteq> ''  [100:00:00] Sensor error: nan values, check the wiring of the DH''"
proof -
  have ev: "cycle_events failed_sensor started = invalid_events 2000"
    using cycle_events_invalid [OF arrays_ok_started, of failed_sensor]
    by (simp add: failed_sensor_def started_def)
  have e: "entry_text ''Sensor error: nan values.'' 2000 = ''[00:00:02] Sensor error: nan values.''"
    using entry_text_hhmmss [of "''Sensor error: nan values.''" 2000]
    by (simp add: WAIT_MSG_def hhmmss_2000)
  have marker: "AddLog WAIT_MSG 2 \<in> set (invalid_events 2000)"
    by (simp add: invalid_events_def)
  have long: "log_section_of [(0, ''Sensor error: nan values, check the wiring of the DHT'')] ! 1
     = ''  [00:00:02] Sensor error: nan values, check the wiring of the DH''"
    using log_section_of_single [of 0 "''Sensor error: nan values, check the wiring of the DHT''"]
    by (simp add: entry_text_cut)
  have late: "log_section_of [(359998000, ''Sensor error: nan values, check the wiring of the DH'')] ! 1
     = ''  [100:00:00] Sensor error: nan values, check the wiring of the D''"
    using log_section_of_single [of 359998000 "''Sensor error: nan values, check the wiring of the DH''"]
    by (simp add: entry_text_cut)
  show ?thesis
    unfolding long late
    using marker by (simp add: ev serial_lines_invalid e) (simp add: WAIT_MSG_def)
qed

text \<open>
  C5. After the log is cleared, a sequence of at most six appends takes the first branch
  of \<open>add_log\<close> every time: the count is the number of messages and the messages are
  stored in the order of the calls, the \<open>i\<close>-th at index \<open>i\<close>.
\<close>

theorem clear_then_append_keeps_all:
  assumes "arrays_ok s" and "length entries \<le> 6"
  shows "\<exists>s0 s'. clear_log s = Some s0 \<and> log_all entries s0 = Some s'
     \<and> \<not> list_ex evicting (since s s')
     \<and> log_count s' = int (length entries)
     \<and> take (length entries) (log_history s') = map snd entries
     \<and> (\<forall>i < length entries. log_history s' ! i = snd (entries ! i))"
proof -
  let ?s0 = "emits [ClearLog] (s\<lparr>log_count := 0\<rparr>)"
  have ok0: "arrays_ok ?s0"
    using assms(1) by (simp add: arrays_ok_def)
  have "\<exists>s' evs. log_all entries ?s0 = Some s' \<and> arrays_ok s' \<and> trace s' = trace ?s0 @ evs
     \<and> \<not> list_ex evicting evs
     \<and> log_count s' = log_count ?s0 + int (length entries)
     \<and> take (nat (log_count ?s0) + length entries) (log_history s')
         = take (nat (log_count ?s0)) (log_history ?s0) @ map snd entries"
    using assms(2) by (intro log_all_fill ok0) (simp_all add: LOG_SIZE_def)
  then obtain s' evs where r: "log_all entries ?s0 = Some s'" "trace s' = trace s @ ClearLog # evs"
      "\<not> list_ex evicting evs" "log_count s' = int (length entries)"
      "take (length entries) (log_history s') = map snd entries"
    by auto
  have nth: "\<forall>i < length entries. log_history s' ! i = snd (entries ! i)"
  proof (intro allI impI)
    fix i assume i: "i < length entries"
    then have "log_history s' ! i = take (length entries) (log_history s') ! i"
      by simp
    also have "\<dots> = snd (entries ! i)"
      using i by (simp add: r(5))
    finally show "log_history s' ! i = snd (entries ! i)" .
  qed
  have ev: "\<not> list_ex evicting (since s s')"
    using r(2,3) by (simp add: since_def)
  show ?thesis
    using r(1,4,5) nth ev by (simp add: clear_log_emits)
qed

theorem clear_then_append_keeps_all_witness:
  "arrays_ok started \<and> length [(0 :: ulong, ''first''), (5, ''second'')] \<le> 6 \<and>
   (\<exists>s0 s'. clear_log started = Some s0 \<and> log_all [(0, ''first''), (5, ''second'')] s0 = Some s'
      \<and> log_count s' = 2 \<and> log_history s' ! 0 = ''first'' \<and> log_history s' ! 1 = ''second'')"
proof -
  have "length [(0 :: ulong, ''first''), (5, ''second'')] \<le> 6" by simp
  from clear_then_append_keeps_all [OF arrays_ok_started this]
  show ?thesis
    using arrays_ok_started by (auto simp: eval_nat_numeral)
qed

text \<open>
  C6. For a log of 0 to 6 entries the log section is 8 lines long: the heading, one line
  for each entry, a blank line for each free slot and one more blank line.
\<close>

theorem log_section_line_count:
  assumes "arrays_ok s" and "0 \<le> log_count s" and "log_count s \<le> LOG_SIZE"
  shows "\<exists>s'. print_log_section s = Some s' \<and>
     length (serial_lines (since s s')) = 8 \<and>
     drop (1 + nat (log_count s)) (serial_lines (since s s'))
       = replicate (7 - nat (log_count s)) BLANK_LINE"
proof -
  from print_log_section_lines [OF assms] obtain s' where
    run: "print_log_section s = Some s'" and
    lines: "serial_lines (since s s') =
             ''Log & Status:                                    ''
             # map (\<lambda>e. ''  '' @ entry_text (fst e) (snd e))
                 (take (nat (log_count s)) (zip (log_history s) (log_times s)))
             @ replicate (nat (LOG_SIZE - log_count s)) BLANK_LINE @ [BLANK_LINE]"
    by blast
  have len: "length (log_history s) = 6" "length (log_times s) = 6"
    using assms(1) by (simp_all add: arrays_ok_def LOG_SIZE_def)
  have n: "nat (log_count s) \<le> 6"
    using assms(3) by (simp add: LOG_SIZE_def)
  have pad: "replicate (nat (LOG_SIZE - log_count s)) BLANK_LINE @ [BLANK_LINE]
      = replicate (7 - nat (log_count s)) BLANK_LINE"
  proof -
    have "7 - nat (log_count s) = Suc (nat (LOG_SIZE - log_count s))"
      using assms(2,3) by (simp add: LOG_SIZE_def)
    then show ?thesis
      by (simp add: replicate_append_same)
  qed
  have "length (serial_lines (since s s')) = 8"
    using len n assms(2,3) by (simp add: lines LOG_SIZE_def)
  moreover have "drop (1 + nat (log_count s)) (serial_lines (since s s'))
       = replicate (7 - nat (log_count s)) BLANK_LINE"
    using len n by (simp add: lines pad del: replicate_Suc)
  ultimately show ?thesis
    using run by simp
qed

theorem log_section_line_count_witness:
  "arrays_ok started \<and> (0::int) \<le> log_count started \<and> log_count started \<le> LOG_SIZE \<and>
   (\<exists>s'. print_log_section started = Some s' \<and>
     length (serial_lines (since started s')) = 8 \<and>
     drop 1 (serial_lines (since started s')) = replicate 7 BLANK_LINE)"
proof -
  have c: "log_count started = 0"
    by (simp add: started_def boot_def)
  show ?thesis
    using log_section_line_count [of started] arrays_ok_started
    by (simp add: c LOG_SIZE_def)
qed

text \<open>
  C7. At a temperature of 27.00 and a humidity of 43.00 the formulas of \<open>loop\<close> give a
  dew point of 15.60, a vapor pressure of 15.29, a saturation vapor pressure of 35.57, a
  humidex of 29.94 and an enthalpy of 1124.19, each to two decimal places. The values are
  those of the formulas in exact real arithmetic, with the exponential bounded by its
  series; the rounding of the 32-bit format is not part of the model.
\<close>

theorem reference_metrics:
  "let m = compute_metrics dht (Num 27.00) (Num 43.00) in
     two_places (dewPoint m) 15.60 \<and>
     two_places (vaporPressure m) 15.29 \<and>
     two_places (satVaporPressure m) 35.57 \<and>
     two_places (humidex m) 29.94 \<and>
     two_places (enthalpy m) 1124.19"
proof -
  define e where "e = exp (7929 / 4502 :: real)"
  have b: "5.819 < e" "e < 5.8196"
    unfolding e_def by (rule exp_reference)+
  have m: "compute_metrics dht (Num 27.00) (Num 43.00) =
      (let vp = 43 / 100.0 * 6.112 * e
       in \<lparr>heatIndex = computeHeatIndex dht (Num 27) (Num 43),
           dewPoint = Num (27 - ((100 - 43) / 5.0)),
           absHumidity = Num (216.7 * ((43 / 100.0) * 6.112 * e / (273.15 + 27))),
           specificHumidity = Num ((0.622 * (43 / 100.0)) / (1 + (0.622 * (43 / 100.0)))),
           mixingRatio = Num ((622 * (43 / 100.0)) / (1000 - (43 / 100.0))),
           vaporPressure = Num vp,
           satVaporPressure = Num (6.112 * e),
           wetBulb = Num (27 * arctan (0.151977 * sqrt (43 + 8.313659)) + arctan (27 + 43)
                            - arctan (43 - 1.676331) + 0.00391838 * (43 powr 1.5) * arctan (0.023101 * 43)
                            - 4.686035),
           humidex = Num (27 + 0.5555 * (vp - 10.0)),
           enthalpy = Num (1.006 * 27 + (2501 + 1.86 * 27) * 43 / 100.0)\<rparr>)"
    unfolding compute_metrics_def e_def exp_argument [symmetric] by simp
  have dew: "\<bar>27 - ((100 - 43) / 5.0) - 15.60\<bar> < (0.005 :: real)"
    by simp
  have vp: "\<bar>43 / 100.0 * 6.112 * e - 15.29\<bar> < 0.005"
    using b by (simp add: abs_less_iff)
  have svp: "\<bar>6.112 * e - 35.57\<bar> < 0.005"
    using b by (simp add: abs_less_iff)
  have hx: "\<bar>27 + 0.5555 * (43 / 100.0 * 6.112 * e - 10.0) - 29.94\<bar> < 0.005"
    using b by (simp add: abs_less_iff)
  have en: "\<bar>1.006 * 27 + (2501 + 1.86 * 27) * 43 / 100.0 - 1124.19\<bar> < (0.005 :: real)"
    by simp
  show ?thesis
    unfolding m Let_def using dew vp svp hx en by simp
qed

text \<open>
  C8, as amended. Every cycle starts with these four steps in this order: read the
  temperature, read the humidity, reset the log, append \<open>Measurement received from DHT11.\<close>
  to the empty log.
\<close>

theorem cycle_start:
  assumes "arrays_ok s"
  shows "\<exists>s'. loop dht s = Some s' \<and>
     take 4 (since s s') =
       [ReadTemperature, ReadHumidity, ClearLog, AddLog ''Measurement received from DHT11.'' 0]"
  using loop_total [OF assms, of dht] take4_cycle [OF assms, of dht] by auto

theorem cycle_start_witness:
  "arrays_ok started \<and> (\<exists>s'. loop failed_sensor started = Some s' \<and>
     take 4 (since started s') =
       [ReadTemperature, ReadHumidity, ClearLog, AddLog ''Measurement received from DHT11.'' 0])"
  using cycle_start [of started failed_sensor] arrays_ok_started by simp

text \<open>
  C8 as stated puts the reset and the append before the reads; the first four events of a
  cycle are not in that order.
\<close>

theorem cycle_start_counterexample:
  "take 4 (cycle_events sample_sensor started) =
     [ReadTemperature, ReadHumidity, ClearLog, AddLog ''Measurement received from DHT11.'' 0] \<and>
   take 4 (cycle_events sample_sensor started) \<noteq>
     [ClearLog, AddLog ''Measurement received from DHT11.'' 0, ReadTemperature, ReadHumidity]"
  by (simp add: take4_cycle [OF arrays_ok_started])

text \<open>
  C9. From a state with \<open>0 \<le> log_count \<le> LOG_SIZE\<close>, \<open>add_log\<close> returns without an
  access outside the two arrays, in a state with \<open>0 \<le> log_count \<le> LOG_SIZE\<close>; on a
  full log the count stays at \<open>LOG_SIZE\<close>, below it the count grows by one. The reset
  of the log leaves the count at 0.
\<close>

theorem log_count_invariant:
  assumes "arrays_ok s" and "0 \<le> log_count s" and "log_count s \<le> LOG_SIZE"
  shows "(\<exists>s'. add_log msg s = Some s' \<and> arrays_ok s'
            \<and> 0 \<le> log_count s' \<and> log_count s' \<le> LOG_SIZE
            \<and> (log_count s = LOG_SIZE \<longrightarrow> log_count s' = LOG_SIZE)
            \<and> (log_count s < LOG_SIZE \<longrightarrow> log_count s' = log_count s + 1))
       \<and> (\<exists>s'. clear_log s = Some s' \<and> arrays_ok s' \<and> log_count s' = 0)"
proof (intro conjI)
  show "\<exists>s'. add_log msg s = Some s' \<and> arrays_ok s'
            \<and> 0 \<le> log_count s' \<and> log_count s' \<le> LOG_SIZE
            \<and> (log_count s = LOG_SIZE \<longrightarrow> log_count s' = LOG_SIZE)
            \<and> (log_count s < LOG_SIZE \<longrightarrow> log_count s' = log_count s + 1)"
  proof (cases "log_count s < LOG_SIZE")
    case True
    show ?thesis
      using assms True by (simp add: add_log_append [OF assms(2) True assms(1)] arrays_ok_def)
  next
    case False
    have "length (log_history s) = 6" "length (log_times s) = 6"
      using assms(1) by (simp_all add: arrays_ok_def LOG_SIZE_def)
    then show ?thesis
      using assms False by (simp add: add_log_evict [OF False assms(1)] arrays_ok_def LOG_SIZE_def)
  qed
  show "\<exists>s'. clear_log s = Some s' \<and> arrays_ok s' \<and> log_count s' = 0"
    using assms(1) by (simp add: clear_log_emits arrays_ok_def)
qed

theorem log_count_invariant_witness:
  "arrays_ok (started\<lparr>log_count := 6\<rparr>) \<and> 0 \<le> log_count (started\<lparr>log_count := 6\<rparr>)
   \<and> log_count (started\<lparr>log_count := 6\<rparr>) \<le> LOG_SIZE
   \<and> log_count (started\<lparr>log_count := 6\<rparr>) = LOG_SIZE
   \<and> (\<exists>s'. add_log ''seventh'' (started\<lparr>log_count := 6\<rparr>) = Some s' \<and> log_count s' = 6)
   \<and> arrays_ok started \<and> 0 \<le> log_count started \<and> log_count started < LOG_SIZE
   \<and> (\<exists>s'. add_log ''first'' started = Some s' \<and> log_count s' = 1)"
proof -
  have ok: "arrays_ok (started\<lparr>log_count := 6\<rparr>)"
    using arrays_ok_started by (simp add: arrays_ok_def)
  have c: "0 \<le> log_count (started\<lparr>log_count := 6\<rparr>)" "log_count (started\<lparr>log_count := 6\<rparr>) \<le> LOG_SIZE"
    by (simp_all add: LOG_SIZE_def)
  have c': "0 \<le> log_count started" "log_count started \<le> LOG_SIZE"
    by (simp_all add: LOG_SIZE_def started_fields)
  from log_count_invariant [OF ok c, of "''seventh''"]
    log_count_invariant [OF arrays_ok_started c', of "''first''"]
  show ?thesis
    using ok arrays_ok_started by (auto simp: LOG_SIZE_def started_fields)
qed

text \<open>
  C10. In a run of the sketch, \<open>setup_board\<close> and then any number of cycles with any
  answers of the sensor, every call of \<open>add_log\<close> is entered with a count from 0 to 4:
  no call takes the branch that drops an entry, and the count never exceeds 5.
\<close>

theorem eviction_unreachable:
  "\<exists>s'. sketch answers = Some s'
     \<and> (\<forall>msg k. AddLog msg k \<in> set (trace s') \<longrightarrow> 0 \<le> k \<and> k < 5)
     \<and> \<not> list_ex evicting (trace s')
     \<and> 0 \<le> log_count s' \<and> log_count s' \<le> 5"
proof -
  have c: "0 \<le> log_count started" "log_count started \<le> 5"
    by (simp_all add: started_fields)
  from cycles_run [OF arrays_ok_started c, of answers] obtain s' evs where
    r: "cycles answers started = Some s'" "trace s' = trace started @ evs"
      "\<forall>msg k. AddLog msg k \<in> set evs \<longrightarrow> 0 \<le> k \<and> k < 5"
      "0 \<le> log_count s'" "log_count s' \<le> 5"
    by blast
  have fit: "\<forall>msg k. AddLog msg k \<in> set (trace s') \<longrightarrow> 0 \<le> k \<and> k < 5"
    using r(3) by (auto simp: r(2) started_def)
  have "\<not> list_ex evicting (trace s')"
  proof
    assume "list_ex evicting (trace s')"
    then obtain msg k where "AddLog msg k \<in> set (trace s')" "\<not> k < LOG_SIZE"
      by (auto simp: list_ex_iff evicting_iff)
    with fit show False
      by (fastforce simp: LOG_SIZE_def)
  qed
  then show ?thesis
    using r(1,4,5) fit by (simp add: sketch_def setup_board_boot)
qed

theorem eviction_unreachable_witness:
  "\<exists>s'. sketch [failed_sensor] = Some s'
     \<and> AddLog WAIT_MSG 2 \<in> set (trace s') \<and> (0::int) \<le> 2 \<and> (2::int) < 5
     \<and> \<not> list_ex evicting (trace s')"
proof -
  from eviction_unreachable [of "[failed_sensor]"] obtain s' where
    r: "sketch [failed_sensor] = Some s'" "\<not> list_ex evicting (trace s')"
    by blast
  have "AddLog WAIT_MSG 2 \<in> set (invalid_events 2000)"
    by (simp add: invalid_events_def)
  then have "AddLog WAIT_MSG 2 \<in> set (trace s')"
    using r(1) by (auto simp: sketch_def setup_board_boot failed_cycle_state)
  then show ?thesis
    using r by simp
qed

end
